theory Spec2Isabelle
  imports Complex_Main "HOL-Library.Char_ord" "HOL-Library.List_Lexorder"
    "HOL-Library.Product_Lexorder" "HOL-Library.Multiset" "HOL-Library.Log_Nat"
begin

section \<open>The accounting ledger of the back-office API\<close>

text \<open>
  This theory embeds the accounting module: the repository functions
  \<^verbatim>\<open>getAccountBalances\<close>, \<^verbatim>\<open>getJournalEntries\<close>, \<^verbatim>\<open>createJournalEntry\<close> and
  \<^verbatim>\<open>getAccountingOverview\<close> (second part of \<^verbatim>\<open>ACCOUNTING/accounting.routes.js\<close>), the
  configuration check \<^verbatim>\<open>validateAccountingDatabaseConfig\<close> (\<^verbatim>\<open>accounting.schema.js\<close>) and the
  seeding and table definitions of the database initialisation (\<^verbatim>\<open>unnamed/part_004\<close>).

  Scope of the model.
  \<^item> The payload of \<^verbatim>\<open>createJournalEntry\<close> is \<^verbatim>\<open>req.body\<close>: any JSON value, or
    \<^verbatim>\<open>undefined\<close>. Nothing is assumed about its shape.
  \<^item> A number of the payload is an IEEE 754 double: a literal is rounded to the nearest
    double (ties to even), sums and differences are rounded again, and a number is sent to the
    database in the shortest decimal form that reads back as the same double
    (\<^verbatim>\<open>Number.prototype.toString\<close>). Negative zero is not told apart from zero.
  \<^item> The conversions of the platform that the module does not contain are parameters
    (record \<open>platform\<close>): the number that a string or an array converts to, the text that
    node-postgres sends for a parameter that is neither a string nor null, and PostgreSQL's
    reading of a date and of an integer from text.
  \<^item> The database is one PostgreSQL session over three tables, each a list of rows in
    insertion order. The SQL statements of the source are translated to list functions; the
    column types and constraints are those of the \<^verbatim>\<open>CREATE TABLE\<close> statements.
  \<^item> A statement can also fail for a reason the model does not see (a lost connection, for
    instance). Such failures are an input: a \<open>faults\<close> predicate tells which client calls fail.
  \<^item> The deadline of \<^verbatim>\<open>withTimeout\<close> is real time and is not modelled.
\<close>

subsection \<open>JavaScript numbers\<close>

text \<open>A double, by its exact value.\<close>

datatype jsnum = Fin rat | PosInf | NegInf | NaN

text \<open>The binary exponent of a positive rational: \<open>2 powi ilog2 q \<le> q < 2 powi (ilog2 q + 1)\<close>.\<close>

definition ilog2 :: "rat \<Rightarrow> int" where
  "ilog2 q = (if 1 \<le> q then bitlen \<lfloor>q\<rfloor> - 1 else - bitlen (\<lceil>1 / q\<rceil> - 1))"

text \<open>The nearest integer, ties to even.\<close>

definition round_even :: "rat \<Rightarrow> int" where
  "round_even x =
     (let f = \<lfloor>x\<rfloor>; r = x - of_int f
      in if r < 1 / 2 then f else if 1 / 2 < r then f + 1 else if even f then f else f + 1)"

text \<open>The double nearest to a rational: 53 significant bits, the least exponent that of the
  subnormal numbers, and \<^verbatim>\<open>Infinity\<close> from \<open>2 ^ 1024\<close> on.\<close>

definition to_double :: "rat \<Rightarrow> jsnum" where
  "to_double q =
     (if q = 0 then Fin 0
      else
        let e = max (ilog2 \<bar>q\<bar> - 52) (- 1074);
            v = of_int (round_even (\<bar>q\<bar> / 2 powi e)) * 2 powi e
        in if 2 ^ 1024 \<le> v then (if 0 < q then PosInf else NegInf)
           else Fin (if 0 < q then v else - v))"

text \<open>\<^verbatim>\<open>a + b\<close>\<close>

fun js_add :: "jsnum \<Rightarrow> jsnum \<Rightarrow> jsnum" where
  "js_add (Fin a) (Fin b) = to_double (a + b)"
| "js_add NaN _ = NaN"
| "js_add _ NaN = NaN"
| "js_add PosInf NegInf = NaN"
| "js_add NegInf PosInf = NaN"
| "js_add PosInf _ = PosInf"
| "js_add _ PosInf = PosInf"
| "js_add NegInf _ = NegInf"
| "js_add _ NegInf = NegInf"

fun js_neg :: "jsnum \<Rightarrow> jsnum" where
  "js_neg (Fin a) = Fin (- a)"
| "js_neg PosInf = NegInf"
| "js_neg NegInf = PosInf"
| "js_neg NaN = NaN"

text \<open>\<^verbatim>\<open>a - b\<close>\<close>

definition js_sub :: "jsnum \<Rightarrow> jsnum \<Rightarrow> jsnum" where
  "js_sub a b = js_add a (js_neg b)"

text \<open>\<^verbatim>\<open>Math.abs\<close>\<close>

fun js_abs :: "jsnum \<Rightarrow> jsnum" where
  "js_abs (Fin a) = Fin \<bar>a\<bar>"
| "js_abs PosInf = PosInf"
| "js_abs NegInf = PosInf"
| "js_abs NaN = NaN"

text \<open>\<^verbatim>\<open>a > b\<close>: every comparison with \<^verbatim>\<open>NaN\<close> is false.\<close>

fun js_gt :: "jsnum \<Rightarrow> jsnum \<Rightarrow> bool" where
  "js_gt (Fin a) (Fin b) = (a > b)"
| "js_gt NaN _ = False"
| "js_gt _ NaN = False"
| "js_gt PosInf b = (b \<noteq> PosInf)"
| "js_gt a PosInf = False"
| "js_gt a NegInf = (a \<noteq> NegInf)"
| "js_gt NegInf b = False"

text \<open>\<^verbatim>\<open>a <= b\<close>\<close>

fun js_le :: "jsnum \<Rightarrow> jsnum \<Rightarrow> bool" where
  "js_le (Fin a) (Fin b) = (a \<le> b)"
| "js_le NaN _ = False"
| "js_le _ NaN = False"
| "js_le NegInf b = True"
| "js_le a PosInf = True"
| "js_le PosInf b = False"
| "js_le a NegInf = False"

text \<open>Truthiness of a number: \<^verbatim>\<open>0\<close> and \<^verbatim>\<open>NaN\<close> are falsy.\<close>

definition truthy_num :: "jsnum \<Rightarrow> bool" where
  "truthy_num n = (n \<noteq> NaN \<and> n \<noteq> Fin 0)"

text \<open>The decimal exponent of a positive rational:
  \<open>10 powi ilog10 q \<le> q < 10 powi (ilog10 q + 1)\<close>.\<close>

definition ilog10 :: "rat \<Rightarrow> int" where
  "ilog10 q = (if 1 \<le> q then int (floorlog 10 (nat \<lfloor>q\<rfloor>)) - 1
               else - int (floorlog 10 (nat (\<lceil>1 / q\<rceil> - 1))))"

text \<open>\<^verbatim>\<open>Number.prototype.toString\<close> of a positive double \<open>x\<close> below \<open>10 powi n\<close>: the decimal
  with the fewest digits \<open>k\<close> that rounds to \<open>x\<close>; of the decimals with \<open>k\<close> digits next below
  and next above \<open>x\<close>, the one nearer to \<open>x\<close>, and the one whose last digit is even when both
  are as near. Seventeen digits always suffice.\<close>

fun shortest :: "nat \<Rightarrow> nat \<Rightarrow> int \<Rightarrow> rat \<Rightarrow> rat" where
  "shortest 0 k n x = x"
| "shortest (Suc fuel) k n x =
     (let u = 10 powi (n - int k);
          s = \<lfloor>x / u\<rfloor>;
          lo = of_int s * u;
          hi = lo + u;
          okl = (to_double lo = Fin x);
          okh = (to_double hi = Fin x)
      in if okl \<and> okh then
           (if x - lo < hi - x then lo else if hi - x < x - lo then hi
            else if even s then lo else hi)
         else if okl then lo
         else if okh then hi
         else shortest fuel (Suc k) n x)"

text \<open>The value of the decimal text that JavaScript writes for the double \<open>x\<close>.\<close>

definition to_decimal :: "rat \<Rightarrow> rat" where
  "to_decimal x =
     (if x = 0 then 0
      else if 0 < x then shortest 17 1 (ilog10 x + 1) x
      else - shortest 17 1 (ilog10 (- x) + 1) (- x))"

subsection \<open>Configuration\<close>

record databaseConfig =
  url :: string
  port :: jsnum
  username :: string
  password :: string
  database :: string

datatype issue =
    EntryDateRequired         \<comment> \<open>\<^verbatim>\<open>entryDate is required\<close>\<close>
  | DescriptionRequired       \<comment> \<open>\<^verbatim>\<open>description is required\<close>\<close>
  | LinesRequired             \<comment> \<open>\<^verbatim>\<open>lines array is required and must not be empty\<close>\<close>
  | NotBalanced jsnum jsnum   \<comment> \<open>\<^verbatim>\<open>journal entry must be balanced (debits: .., credits: ..)\<close>\<close>

datatype pg_error =
    ConnectionFailure
  | InvalidDatetimeFormat
  | NotNullViolation
  | ForeignKeyViolation
  | UniqueViolation
  | NumericValueOutOfRange
  | InvalidTextRepresentation
  | StringDataRightTruncation
  | InvalidRowCount

datatype error =
    SchemaInvalidDbConfig "string list"      \<comment> \<open>code \<^verbatim>\<open>ACCOUNTING_SCHEMA_INVALID_DB_CONFIG\<close>\<close>
  | RepositoryInvalidDbConfig "string list"  \<comment> \<open>code \<^verbatim>\<open>ACCOUNTING_REPOSITORY_INVALID_DB_CONFIG\<close>\<close>
  | InvalidJournalEntry "issue list"         \<comment> \<open>code \<^verbatim>\<open>ACCOUNTING_REPOSITORY_INVALID_JOURNAL_ENTRY\<close>\<close>
  | FailedToCreateJournalEntry
  | TypeError
  | StorageError pg_error

definition validateAccountingDatabaseConfig :: "databaseConfig \<Rightarrow> error option" where
  "validateAccountingDatabaseConfig cfg =
     (let issues =
            (if url cfg = [] then [''DB_HOST (databaseConfig.url) is not defined''] else [])
          @ (if database cfg = [] then [''DB_NAME (databaseConfig.database) is not defined''] else [])
          @ (if port cfg = NaN \<or> js_le (port cfg) (Fin 0)
             then [''DB_PORT (databaseConfig.port) must be a positive number''] else [])
      in if length issues > 0 then Some (SchemaInvalidDbConfig issues) else None)"

definition validateAccountingQueryConfig :: "databaseConfig \<Rightarrow> error option" where
  "validateAccountingQueryConfig cfg =
     (let issues =
            (if url cfg = [] then [''DB_HOST (databaseConfig.url) is not defined''] else [])
          @ (if port cfg = NaN \<or> js_le (port cfg) (Fin 0)
             then [''DB_PORT (databaseConfig.port) must be a positive number''] else [])
          @ (if username cfg = [] then [''DB_USER (databaseConfig.username) is not defined''] else [])
      in if length issues > 0 then Some (RepositoryInvalidDbConfig issues) else None)"

subsection \<open>JavaScript values\<close>

text \<open>A value of a parsed JSON body, or \<^verbatim>\<open>undefined\<close>. A number is given by the value of
  its literal; what the program sees is the double nearest to it. An object is its list of
  members in the order of the text.\<close>

datatype jsvalue =
    JUndefined
  | JNull
  | JBool bool
  | JNumber rat
  | JString string
  | JArray "jsvalue list"
  | JObject "(string \<times> jsvalue) list"

definition nullish :: "jsvalue \<Rightarrow> bool" where
  "nullish v = (v = JUndefined \<or> v = JNull)"

text \<open>\<^verbatim>\<open>v.k\<close> for a value that is neither \<^verbatim>\<open>undefined\<close> nor \<^verbatim>\<open>null\<close> (for these the access
  throws a \<^verbatim>\<open>TypeError\<close>, see \<open>nullish\<close>). Of a member that occurs twice, the last counts.
  Strings and arrays have a \<^verbatim>\<open>length\<close>; no other name that the module reads is inherited.\<close>

fun js_get :: "jsvalue \<Rightarrow> string \<Rightarrow> jsvalue" where
  "js_get (JObject kvs) k = (case map_of (rev kvs) k of None \<Rightarrow> JUndefined | Some v \<Rightarrow> v)"
| "js_get (JString s) k = (if k = ''length'' then JNumber (of_nat (length s)) else JUndefined)"
| "js_get (JArray xs) k = (if k = ''length'' then JNumber (of_nat (length xs)) else JUndefined)"
| "js_get _ k = JUndefined"

text \<open>Truthiness: \<^verbatim>\<open>undefined\<close>, \<^verbatim>\<open>null\<close>, \<^verbatim>\<open>false\<close>, \<^verbatim>\<open>0\<close> and \<^verbatim>\<open>''\<close> are falsy.\<close>

fun truthy :: "jsvalue \<Rightarrow> bool" where
  "truthy JUndefined = False"
| "truthy JNull = False"
| "truthy (JBool b) = b"
| "truthy (JNumber q) = (to_double q \<noteq> Fin 0)"
| "truthy (JString s) = (s \<noteq> [])"
| "truthy (JArray xs) = True"
| "truthy (JObject kvs) = True"

text \<open>\<^verbatim>\<open>Array.isArray\<close>\<close>

fun isArray :: "jsvalue \<Rightarrow> bool" where
  "isArray (JArray xs) = True"
| "isArray _ = False"

text \<open>\<^verbatim>\<open>v || null\<close>\<close>

definition or_null :: "jsvalue \<Rightarrow> jsvalue" where
  "or_null v = (if truthy v then v else JNull)"

text \<open>What the platform does and the module does not contain.\<close>

record platform =
  StringToNumber :: "string \<Rightarrow> jsnum"
    \<comment> \<open>\<^verbatim>\<open>Number(s)\<close> for a string\<close>
  ArrayToNumber :: "jsvalue list \<Rightarrow> jsnum option"
    \<comment> \<open>\<^verbatim>\<open>Number(a)\<close> for an array: the number of its \<^verbatim>\<open>toString()\<close>; \<open>None\<close> when
        that throws a \<^verbatim>\<open>TypeError\<close>\<close>
  prepareValue :: "jsvalue \<Rightarrow> string"
    \<comment> \<open>the text node-postgres sends for a parameter that is neither a string nor null\<close>
  date_in :: "string \<Rightarrow> int option"
    \<comment> \<open>PostgreSQL's reading of a \<^verbatim>\<open>DATE\<close>, as a day number\<close>
  int4_in :: "string \<Rightarrow> pg_error + int"
    \<comment> \<open>PostgreSQL's reading of an \<^verbatim>\<open>INTEGER\<close>\<close>

text \<open>\<^verbatim>\<open>Number(v)\<close>. An object of a JSON body converts to \<^verbatim>\<open>NaN\<close>, through the
  \<^verbatim>\<open>toString\<close> it inherits; when it has a member \<^verbatim>\<open>toString\<close> of its own, which is not a
  function, the conversion throws.\<close>

fun ToNumber :: "platform \<Rightarrow> jsvalue \<Rightarrow> error + jsnum" where
  "ToNumber pf JUndefined = Inr NaN"
| "ToNumber pf JNull = Inr (Fin 0)"
| "ToNumber pf (JBool b) = Inr (Fin (if b then 1 else 0))"
| "ToNumber pf (JNumber q) = Inr (to_double q)"
| "ToNumber pf (JString s) = Inr (StringToNumber pf s)"
| "ToNumber pf (JArray xs) =
     (case ArrayToNumber pf xs of None \<Rightarrow> Inl TypeError | Some n \<Rightarrow> Inr n)"
| "ToNumber pf (JObject kvs) =
     (if ''toString'' \<in> set (map fst kvs) then Inl TypeError else Inr NaN)"

text \<open>\<^verbatim>\<open>Number(v) || 0\<close>\<close>

definition Number_or_0 :: "platform \<Rightarrow> jsvalue \<Rightarrow> error + jsnum" where
  "Number_or_0 pf v =
     (case ToNumber pf v of
        Inl e \<Rightarrow> Inl e
      | Inr n \<Rightarrow> Inr (if truthy_num n then n else Fin 0))"

text \<open>\<^verbatim>\<open>v.length > 0\<close> for a value that is neither \<^verbatim>\<open>undefined\<close> nor \<^verbatim>\<open>null\<close>. The length
  of a string or of an array is a whole number that a double holds exactly.\<close>

definition length_gt_0 :: "platform \<Rightarrow> jsvalue \<Rightarrow> error + bool" where
  "length_gt_0 pf v =
     (case v of
        JArray xs \<Rightarrow> Inr (0 < length xs)
      | JString s \<Rightarrow> Inr (0 < length s)
      | _ \<Rightarrow> (case ToNumber pf (js_get v ''length'') of
                Inl e \<Rightarrow> Inl e
              | Inr n \<Rightarrow> Inr (js_gt n (Fin 0))))"

subsection \<open>Tables\<close>

type_synonym pg_date = int       \<comment> \<open>a \<^verbatim>\<open>DATE\<close>, as a day number\<close>
type_synonym timestamp = int     \<comment> \<open>a \<^verbatim>\<open>TIMESTAMP\<close>\<close>

datatype category = Assets | Liabilities | Equity | Revenue | Expenses

record account =
  coa_id :: int
  coa_accountNumber :: string
  coa_accountName :: string
  coa_category :: category
  coa_subcategory :: "string option"
  coa_description :: "string option"
  coa_isActive :: bool
  coa_createdAt :: timestamp
  coa_updatedAt :: timestamp

record journal_entry =
  je_id :: int
  je_entryDate :: pg_date
  je_description :: string
  je_referenceNumber :: "string option"
  je_createdBy :: "string option"
  je_createdAt :: timestamp
  je_updatedAt :: timestamp

record journal_entry_line =
  jel_id :: int
  jel_journalEntryId :: int
  jel_accountId :: int
  jel_debit :: rat
  jel_credit :: rat
  jel_description :: "string option"
  jel_createdAt :: timestamp
  jel_updatedAt :: timestamp

text \<open>The three tables, and the last value of each \<^verbatim>\<open>SERIAL\<close> sequence.\<close>

record db =
  chart_of_accounts :: "account list"
  journal_entries :: "journal_entry list"
  journal_entry_lines :: "journal_entry_line list"
  coa_id_seq :: int
  je_id_seq :: int
  jel_id_seq :: int

text \<open>A client session: the database as this session sees it, and the tables as they were
  at \<^verbatim>\<open>BEGIN\<close> while a transaction is open.\<close>

record client =
  store :: db
  tx :: "db option"

subsection \<open>Column types and parameters\<close>

text \<open>A parameter of a statement, as node-postgres sends it: \<^verbatim>\<open>undefined\<close> and \<^verbatim>\<open>null\<close>
  as \<^verbatim>\<open>NULL\<close>, a string as it is, anything else as text.\<close>

definition text_param :: "platform \<Rightarrow> jsvalue \<Rightarrow> string option" where
  "text_param pf v =
     (case v of
        JUndefined \<Rightarrow> None
      | JNull \<Rightarrow> None
      | JString s \<Rightarrow> Some s
      | _ \<Rightarrow> Some (prepareValue pf v))"

text \<open>A parameter for a \<^verbatim>\<open>DATE\<close> column.\<close>

definition date_param :: "platform \<Rightarrow> jsvalue \<Rightarrow> pg_error + pg_date option" where
  "date_param pf v =
     (case text_param pf v of
        None \<Rightarrow> Inr None
      | Some t \<Rightarrow> (case date_in pf t of
                    None \<Rightarrow> Inl InvalidDatetimeFormat
                  | Some dt \<Rightarrow> Inr (Some dt)))"

text \<open>A parameter for an \<^verbatim>\<open>INTEGER\<close> column. A number is written in decimal: the text of a
  whole number below \<open>10 ^ 21\<close> is its digits, any other text is not an integer for
  PostgreSQL.\<close>

definition int4_param :: "platform \<Rightarrow> jsvalue \<Rightarrow> pg_error + int option" where
  "int4_param pf v =
     (case v of
        JUndefined \<Rightarrow> Inr None
      | JNull \<Rightarrow> Inr None
      | JNumber q \<Rightarrow>
          (case to_double q of
             Fin x \<Rightarrow>
               if of_int \<lfloor>x\<rfloor> \<noteq> x then Inl InvalidTextRepresentation
               else if - 2147483648 \<le> \<lfloor>x\<rfloor> \<and> \<lfloor>x\<rfloor> \<le> 2147483647 then Inr (Some \<lfloor>x\<rfloor>)
               else if \<bar>x\<bar> < 10 ^ 21 then Inl NumericValueOutOfRange
               else Inl InvalidTextRepresentation
           | _ \<Rightarrow> Inl InvalidTextRepresentation)
      | JString s \<Rightarrow> (case int4_in pf s of Inl e \<Rightarrow> Inl e | Inr i \<Rightarrow> Inr (Some i))
      | _ \<Rightarrow> (case int4_in pf (prepareValue pf v) of Inl e \<Rightarrow> Inl e | Inr i \<Rightarrow> Inr (Some i)))"

text \<open>\<^verbatim>\<open>DECIMAL(15, 2)\<close>: the value is rounded to two decimals, half away from zero, and must
  then have at most thirteen digits before the point. What is rounded is the decimal text of
  the double. \<^verbatim>\<open>Infinity\<close> does not fit the column. (\<^verbatim>\<open>NaN\<close> never reaches it:
  \<^verbatim>\<open>Number(x) || 0\<close> has replaced it by \<^verbatim>\<open>0\<close>.)\<close>

definition round2 :: "rat \<Rightarrow> rat" where
  "round2 q = (if 0 \<le> q then of_int \<lfloor>q * 100 + 1 / 2\<rfloor> / 100
               else - (of_int \<lfloor>- q * 100 + 1 / 2\<rfloor> / 100))"

definition numeric_15_2 :: "jsnum \<Rightarrow> pg_error + rat" where
  "numeric_15_2 n =
     (case n of
        Fin x \<Rightarrow> if \<bar>round2 (to_decimal x)\<bar> < 10 ^ 13 then Inr (round2 (to_decimal x))
                 else Inl NumericValueOutOfRange
      | PosInf \<Rightarrow> Inl NumericValueOutOfRange
      | NegInf \<Rightarrow> Inl NumericValueOutOfRange
      | NaN \<Rightarrow> Inl InvalidTextRepresentation)"

text \<open>\<^verbatim>\<open>VARCHAR(n)\<close>: a longer value is an error unless the excess is all spaces, which are
  cut off.\<close>

definition varchar :: "nat \<Rightarrow> string option \<Rightarrow> pg_error + string option" where
  "varchar n x =
     (case x of
        None \<Rightarrow> Inr None
      | Some s \<Rightarrow>
          if length s \<le> n then Inr (Some s)
          else if list_all (\<lambda>c. c = CHR '' '') (drop n s) then Inr (Some (take n s))
          else Inl StringDataRightTruncation)"

subsection \<open>The validation of createJournalEntry\<close>

text \<open>\<^verbatim>\<open>Number(line.debit) || 0\<close> and \<^verbatim>\<open>Number(line.credit) || 0\<close>: reading a member of
  \<^verbatim>\<open>null\<close> throws.\<close>

definition amount :: "platform \<Rightarrow> string \<Rightarrow> jsvalue \<Rightarrow> error + jsnum" where
  "amount pf k line = (if nullish line then Inl TypeError else Number_or_0 pf (js_get line k))"

text \<open>\<^verbatim>\<open>lines.reduce((sum, line) => sum + g(line), acc)\<close>\<close>

fun reduce_sum :: "(jsvalue \<Rightarrow> error + jsnum) \<Rightarrow> jsnum \<Rightarrow> jsvalue list \<Rightarrow> error + jsnum" where
  "reduce_sum g acc [] = Inr acc"
| "reduce_sum g acc (line # rest) =
     (case g line of Inl e \<Rightarrow> Inl e | Inr n \<Rightarrow> reduce_sum g (js_add acc n) rest)"

definition totalDebits :: "platform \<Rightarrow> jsvalue list \<Rightarrow> error + jsnum" where
  "totalDebits pf ls = reduce_sum (amount pf ''debit'') (Fin 0) ls"

definition totalCredits :: "platform \<Rightarrow> jsvalue list \<Rightarrow> error + jsnum" where
  "totalCredits pf ls = reduce_sum (amount pf ''credit'') (Fin 0) ls"

text \<open>The list \<^verbatim>\<open>issues\<close> that createJournalEntry builds before it touches the database
  (lines 379 to 396). The first test of \<^verbatim>\<open>lines\<close> asks for an array; the second one asks
  only for a truthy value with a positive \<^verbatim>\<open>length\<close> and then calls \<^verbatim>\<open>lines.reduce\<close>,
  which only an array has. The constant \<^verbatim>\<open>0.01\<close> is the double nearest to \<open>1 / 100\<close>.\<close>

definition journal_entry_issues ::
  "platform \<Rightarrow> jsvalue \<Rightarrow> jsvalue \<Rightarrow> jsvalue \<Rightarrow> error + issue list" where
  "journal_entry_issues pf entryDate description lines =
     (let issues =
            (if \<not> truthy entryDate then [EntryDateRequired] else [])
          @ (if \<not> truthy description then [DescriptionRequired] else [])
          @ (if \<not> isArray lines \<or> lines = JArray [] then [LinesRequired] else [])
      in if \<not> truthy lines then Inr issues
         else
           (case length_gt_0 pf lines of
              Inl e \<Rightarrow> Inl e
            | Inr False \<Rightarrow> Inr issues
            | Inr True \<Rightarrow>
                (case lines of
                   JArray ls \<Rightarrow>
                     (case totalDebits pf ls of Inl e \<Rightarrow> Inl e | Inr td \<Rightarrow>
                     (case totalCredits pf ls of Inl e \<Rightarrow> Inl e | Inr tc \<Rightarrow>
                        Inr (issues @
                             (if js_gt (js_abs (js_sub td tc)) (to_double (1 / 100))
                              then [NotBalanced td tc] else []))))
                 | _ \<Rightarrow> Inl TypeError)))"

subsection \<open>Statements on journal entries\<close>

text \<open>A statement gives a result or an error, and the database after it. The text of a
  parameter is read, and a value is fitted to the length or to the precision of its column,
  before the statement runs: an error there changes nothing. The statement then takes the next
  value of the \<^verbatim>\<open>SERIAL\<close> sequence, and keeps it when a constraint refuses the row.\<close>

text \<open>\<^verbatim>\<open>INSERT INTO journal_entries ... RETURNING id\<close>\<close>

definition insert_journal_entry ::
  "platform \<Rightarrow> jsvalue \<Rightarrow> jsvalue \<Rightarrow> jsvalue \<Rightarrow> jsvalue \<Rightarrow> timestamp \<Rightarrow> timestamp \<Rightarrow> db \<Rightarrow>
   (pg_error + int) \<times> db" where
  "insert_journal_entry pf eDate descr refNo author created updated d =
     (case date_param pf eDate of Inl e \<Rightarrow> (Inl e, d) | Inr dt0 \<Rightarrow>
     (case varchar 64 (text_param pf refNo) of Inl e \<Rightarrow> (Inl e, d) | Inr rn \<Rightarrow>
     (case varchar 128 (text_param pf author) of Inl e \<Rightarrow> (Inl e, d) | Inr cb \<Rightarrow>
      let new_id = je_id_seq d + 1;
          d1 = d\<lparr>je_id_seq := new_id\<rparr>
      in (case dt0 of None \<Rightarrow> (Inl NotNullViolation, d1) | Some dt \<Rightarrow>
         (case text_param pf descr of None \<Rightarrow> (Inl NotNullViolation, d1) | Some de \<Rightarrow>
          if new_id \<in> set (map je_id (journal_entries d)) then (Inl UniqueViolation, d1)
          else (Inr new_id,
            d1\<lparr>journal_entries := journal_entries d @
                 [\<lparr>je_id = new_id, je_entryDate = dt, je_description = de,
                   je_referenceNumber = rn, je_createdBy = cb, je_createdAt = created,
                   je_updatedAt = updated\<rparr>]\<rparr>))))))"

text \<open>\<^verbatim>\<open>INSERT INTO journal_entry_lines\<close>, with both foreign keys.\<close>

definition insert_journal_entry_line ::
  "platform \<Rightarrow> int \<Rightarrow> jsvalue \<Rightarrow> jsnum \<Rightarrow> jsnum \<Rightarrow> jsvalue \<Rightarrow> timestamp \<Rightarrow> timestamp \<Rightarrow> db \<Rightarrow>
   (pg_error + unit) \<times> db" where
  "insert_journal_entry_line pf journalEntryId accId deb cre descr created updated d =
     (case int4_param pf accId of Inl e \<Rightarrow> (Inl e, d) | Inr acc0 \<Rightarrow>
     (case numeric_15_2 deb of Inl e \<Rightarrow> (Inl e, d) | Inr dv \<Rightarrow>
     (case numeric_15_2 cre of Inl e \<Rightarrow> (Inl e, d) | Inr cv \<Rightarrow>
      let new_id = jel_id_seq d + 1;
          d1 = d\<lparr>jel_id_seq := new_id\<rparr>
      in (case acc0 of None \<Rightarrow> (Inl NotNullViolation, d1) | Some acc \<Rightarrow>
          if new_id \<in> set (map jel_id (journal_entry_lines d)) then (Inl UniqueViolation, d1)
          else if journalEntryId \<notin> set (map je_id (journal_entries d))
            then (Inl ForeignKeyViolation, d1)
          else if acc \<notin> set (map coa_id (chart_of_accounts d))
            then (Inl ForeignKeyViolation, d1)
          else (Inr (),
            d1\<lparr>journal_entry_lines := journal_entry_lines d @
                 [\<lparr>jel_id = new_id, jel_journalEntryId = journalEntryId, jel_accountId = acc,
                   jel_debit = dv, jel_credit = cv, jel_description = text_param pf descr,
                   jel_createdAt = created, jel_updatedAt = updated\<rparr>]\<rparr>)))))"

text \<open>\<^verbatim>\<open>SELECT * FROM journal_entries WHERE id = $1\<close>\<close>

definition select_journal_entry :: "int \<Rightarrow> db \<Rightarrow> (pg_error + journal_entry list) \<times> db" where
  "select_journal_entry i d = (Inr (filter (\<lambda>e. je_id e = i) (journal_entries d)), d)"

text \<open>A line with the number and the name of its account, the row of
  \<^verbatim>\<open>journal_entry_lines jel JOIN chart_of_accounts coa ON jel."accountId" = coa.id\<close>.\<close>

record line_with_account =
  lwa_line :: journal_entry_line
  lwa_accountNumber :: string
  lwa_accountName :: string

definition join_account :: "account list \<Rightarrow> journal_entry_line \<Rightarrow> line_with_account list" where
  "join_account coa l =
     map (\<lambda>a. \<lparr>lwa_line = l, lwa_accountNumber = coa_accountNumber a,
               lwa_accountName = coa_accountName a\<rparr>)
       (filter (\<lambda>a. jel_accountId l = coa_id a) coa)"

definition select_lines_of_entry ::
  "int \<Rightarrow> db \<Rightarrow> (pg_error + line_with_account list) \<times> db" where
  "select_lines_of_entry i d =
     (Inr (concat (map (join_account (chart_of_accounts d))
             (filter (\<lambda>l. jel_journalEntryId l = i) (journal_entry_lines d)))), d)"

subsection \<open>The client\<close>

text \<open>The calls a function makes on its client. \<open>faults\<close> says which of them fail for a
  reason outside the model; a call that fails so has no effect.\<close>

datatype call =
    Connect | Begin | InsertEntry | InsertLine nat | Commit | SelectEntry | SelectLines
  | Rollback | Query | SelectCount | InsertAccount nat

type_synonym faults = "call \<Rightarrow> bool"

definition client_query ::
  "faults \<Rightarrow> call \<Rightarrow> (db \<Rightarrow> (pg_error + 'a) \<times> db) \<Rightarrow> client \<Rightarrow> (error + 'a) \<times> client" where
  "client_query f c stmt cl =
     (if f c then (Inl (StorageError ConnectionFailure), cl)
      else case stmt (store cl) of
             (Inl e, d') \<Rightarrow> (Inl (StorageError e), cl\<lparr>store := d'\<rparr>)
           | (Inr r, d') \<Rightarrow> (Inr r, cl\<lparr>store := d'\<rparr>))"

text \<open>\<^verbatim>\<open>BEGIN\<close> and \<^verbatim>\<open>COMMIT\<close>\<close>

definition begin_tx :: "faults \<Rightarrow> client \<Rightarrow> (error + unit) \<times> client" where
  "begin_tx f cl =
     (if f Begin then (Inl (StorageError ConnectionFailure), cl)
      else (Inr (), if tx cl = None then cl\<lparr>tx := Some (store cl)\<rparr> else cl))"

definition commit_tx :: "faults \<Rightarrow> client \<Rightarrow> (error + unit) \<times> client" where
  "commit_tx f cl =
     (if f Commit then (Inl (StorageError ConnectionFailure), cl)
      else (Inr (), cl\<lparr>tx := None\<rparr>))"

text \<open>Undoing a transaction gives the tables back as they were at \<^verbatim>\<open>BEGIN\<close>; sequences are
  not transactional and keep their values. Without an open transaction \<^verbatim>\<open>ROLLBACK\<close> does
  nothing.\<close>

definition restore :: "db \<Rightarrow> db \<Rightarrow> db" where
  "restore snapshot d =
     d\<lparr>chart_of_accounts := chart_of_accounts snapshot,
       journal_entries := journal_entries snapshot,
       journal_entry_lines := journal_entry_lines snapshot\<rparr>"

definition abort :: "client \<Rightarrow> client" where
  "abort cl = (case tx cl of None \<Rightarrow> cl
               | Some snapshot \<Rightarrow> \<lparr>store = restore snapshot (store cl), tx = None\<rparr>)"

definition rollback_tx :: "faults \<Rightarrow> client \<Rightarrow> (error + unit) \<times> client" where
  "rollback_tx f cl =
     (if f Rollback then (Inl (StorageError ConnectionFailure), cl)
      else (Inr (), abort cl))"

text \<open>\<^verbatim>\<open>client.end()\<close>: the server drops a transaction that is still open. What remains is
  the database after the call.\<close>

definition client_end :: "client \<Rightarrow> db" where
  "client_end cl = store (abort cl)"

subsection \<open>createJournalEntry\<close>

record created =
  entry :: "journal_entry option"
  created_lines :: "line_with_account list"

text \<open>The loop over \<^verbatim>\<open>lines\<close>; \<open>i\<close> counts the lines already inserted. The parameters of
  a statement are computed before it is sent.\<close>

fun insert_lines ::
  "platform \<Rightarrow> faults \<Rightarrow> timestamp \<Rightarrow> int \<Rightarrow> nat \<Rightarrow> jsvalue list \<Rightarrow> client \<Rightarrow>
   (error + unit) \<times> client" where
  "insert_lines pf f now journalEntryId i [] cl = (Inr (), cl)"
| "insert_lines pf f now journalEntryId i (line # rest) cl =
     (case amount pf ''debit'' line of Inl e \<Rightarrow> (Inl e, cl) | Inr deb \<Rightarrow>
     (case amount pf ''credit'' line of Inl e \<Rightarrow> (Inl e, cl) | Inr cre \<Rightarrow>
     (case client_query f (InsertLine i)
             (insert_journal_entry_line pf journalEntryId (js_get line ''accountId'') deb cre
                (or_null (js_get line ''description'')) now now) cl of
        (Inl e, cl') \<Rightarrow> (Inl e, cl')
      | (Inr _, cl') \<Rightarrow> insert_lines pf f now journalEntryId (Suc i) rest cl')))"

text \<open>The inner \<^verbatim>\<open>try\<close> block: header, lines, \<^verbatim>\<open>COMMIT\<close>, and the two reads of what was
  written. (Only an array reaches the loop: the validation has refused everything else.)\<close>

definition try_block ::
  "platform \<Rightarrow> faults \<Rightarrow> timestamp \<Rightarrow> jsvalue \<Rightarrow> jsvalue \<Rightarrow> jsvalue \<Rightarrow> jsvalue \<Rightarrow> jsvalue \<Rightarrow>
   client \<Rightarrow> (error + created) \<times> client" where
  "try_block pf f now entryDate description referenceNumber createdBy lines cl =
     (case client_query f InsertEntry
             (insert_journal_entry pf entryDate description
                (or_null referenceNumber) (or_null createdBy) now now) cl of
        (Inl e, cl1) \<Rightarrow> (Inl e, cl1)
      | (Inr journalEntryId, cl1) \<Rightarrow>
          if journalEntryId = 0 then (Inl FailedToCreateJournalEntry, cl1)
          else
            (case lines of
               JArray ls \<Rightarrow>
                 (case insert_lines pf f now journalEntryId 0 ls cl1 of
                    (Inl e, cl2) \<Rightarrow> (Inl e, cl2)
                  | (Inr _, cl2) \<Rightarrow>
                      (case commit_tx f cl2 of
                         (Inl e, cl3) \<Rightarrow> (Inl e, cl3)
                       | (Inr _, cl3) \<Rightarrow>
                           (case client_query f SelectEntry
                                   (select_journal_entry journalEntryId) cl3 of
                              (Inl e, cl4) \<Rightarrow> (Inl e, cl4)
                            | (Inr rows, cl4) \<Rightarrow>
                                (case client_query f SelectLines
                                        (select_lines_of_entry journalEntryId) cl4 of
                                   (Inl e, cl5) \<Rightarrow> (Inl e, cl5)
                                 | (Inr linesData, cl5) \<Rightarrow>
                                     (Inr \<lparr>entry = (case rows of [] \<Rightarrow> None | r # _ \<Rightarrow> Some r),
                                           created_lines = linesData\<rparr>, cl5)))))
             | _ \<Rightarrow> (Inl TypeError, cl1)))"

text \<open>The function \<^verbatim>\<open>operation\<close>: connect, \<^verbatim>\<open>BEGIN\<close>, the \<^verbatim>\<open>try\<close> block with its
  \<^verbatim>\<open>catch\<close> (\<^verbatim>\<open>ROLLBACK\<close>, then the error again), and \<^verbatim>\<open>client.end()\<close> in the
  \<^verbatim>\<open>finally\<close>.\<close>

definition operation ::
  "platform \<Rightarrow> faults \<Rightarrow> timestamp \<Rightarrow> jsvalue \<Rightarrow> jsvalue \<Rightarrow> jsvalue \<Rightarrow> jsvalue \<Rightarrow> jsvalue \<Rightarrow>
   db \<Rightarrow> (error + created) \<times> db" where
  "operation pf f now entryDate description referenceNumber createdBy lines d =
     (if f Connect then (Inl (StorageError ConnectionFailure), d)
      else
        (case begin_tx f \<lparr>store = d, tx = None\<rparr> of
           (Inl e, cl1) \<Rightarrow> (Inl e, client_end cl1)
         | (Inr _, cl1) \<Rightarrow>
             (case try_block pf f now entryDate description referenceNumber createdBy lines cl1 of
                (Inr r, cl2) \<Rightarrow> (Inr r, client_end cl2)
              | (Inl e, cl2) \<Rightarrow>
                  (case rollback_tx f cl2 of
                     (Inl e', cl3) \<Rightarrow> (Inl e', client_end cl3)
                   | (Inr _, cl3) \<Rightarrow> (Inl e, client_end cl3)))))"

text \<open>createJournalEntry: the two configuration checks, the destructuring of the payload
  (line 377, which throws for \<^verbatim>\<open>undefined\<close> and \<^verbatim>\<open>null\<close>), the validation, and the
  operation.\<close>

definition createJournalEntry ::
  "platform \<Rightarrow> databaseConfig \<Rightarrow> faults \<Rightarrow> timestamp \<Rightarrow> db \<Rightarrow> jsvalue \<Rightarrow>
   (error + created) \<times> db" where
  "createJournalEntry pf cfg f now d payload =
     (case validateAccountingDatabaseConfig cfg of Some e \<Rightarrow> (Inl e, d) | None \<Rightarrow>
     (case validateAccountingQueryConfig cfg of Some e \<Rightarrow> (Inl e, d) | None \<Rightarrow>
      if nullish payload then (Inl TypeError, d)
      else
        let entryDate = js_get payload ''entryDate'';
            description = js_get payload ''description'';
            referenceNumber = js_get payload ''referenceNumber'';
            createdBy = js_get payload ''createdBy'';
            lines = js_get payload ''lines''
        in (case journal_entry_issues pf entryDate description lines of
              Inl e \<Rightarrow> (Inl e, d)
            | Inr issues \<Rightarrow>
                if length issues > 0 then (Inl (InvalidJournalEntry issues), d)
                else operation pf f now entryDate description referenceNumber createdBy lines d)))"

subsection \<open>Seeding the chart of accounts\<close>

record seed_account =
  number :: string
  name :: string
  category :: category
  subcategory :: string

text \<open>The array \<^verbatim>\<open>accounts\<close> of seedChartOfAccounts.\<close>

definition accounts :: "seed_account list" where
  "accounts =
     [\<lparr>number = ''1010'', name = ''Cash - Checking'', category = Assets, subcategory = ''Current Assets''\<rparr>,
      \<lparr>number = ''1020'', name = ''Cash - Savings'', category = Assets, subcategory = ''Current Assets''\<rparr>,
      \<lparr>number = ''1030'', name = ''Petty Cash'', category = Assets, subcategory = ''Current Assets''\<rparr>,
      \<lparr>number = ''1100'', name = ''Accounts Receivable'', category = Assets, subcategory = ''Current Assets''\<rparr>,
      \<lparr>number = ''1200'', name = ''Inventory'', category = Assets, subcategory = ''Current Assets''\<rparr>,
      \<lparr>number = ''1300'', name = ''Prepaid Insurance'', category = Assets, subcategory = ''Current Assets''\<rparr>,
      \<lparr>number = ''1310'', name = ''Prepaid Rent'', category = Assets, subcategory = ''Current Assets''\<rparr>,
      \<lparr>number = ''1500'', name = ''Furniture & Equipment'', category = Assets, subcategory = ''Fixed Assets''\<rparr>,
      \<lparr>number = ''1510'', name = ''Vehicles'', category = Assets, subcategory = ''Fixed Assets''\<rparr>,
      \<lparr>number = ''1520'', name = ''Machinery'', category = Assets, subcategory = ''Fixed Assets''\<rparr>,
      \<lparr>number = ''1530'', name = ''Leasehold Improvements'', category = Assets, subcategory = ''Fixed Assets''\<rparr>,
      \<lparr>number = ''1600'', name = ''Accumulated Depreciation'', category = Assets, subcategory = ''Fixed Assets''\<rparr>,
      \<lparr>number = ''2010'', name = ''Accounts Payable'', category = Liabilities, subcategory = ''Current Liabilities''\<rparr>,
      \<lparr>number = ''2020'', name = ''Credit Card Payable'', category = Liabilities, subcategory = ''Current Liabilities''\<rparr>,
      \<lparr>number = ''2100'', name = ''Accrued Payroll'', category = Liabilities, subcategory = ''Current Liabilities''\<rparr>,
      \<lparr>number = ''2110'', name = ''Accrued Interest'', category = Liabilities, subcategory = ''Current Liabilities''\<rparr>,
      \<lparr>number = ''2120'', name = ''Accrued Utilities'', category = Liabilities, subcategory = ''Current Liabilities''\<rparr>,
      \<lparr>number = ''2200'', name = ''Sales Tax Payable'', category = Liabilities, subcategory = ''Current Liabilities''\<rparr>,
      \<lparr>number = ''2210'', name = ''Payroll Tax Payable'', category = Liabilities, subcategory = ''Current Liabilities''\<rparr>,
      \<lparr>number = ''2300'', name = ''Short-Term Loans Payable'', category = Liabilities, subcategory = ''Current Liabilities''\<rparr>,
      \<lparr>number = ''2310'', name = ''Line of Credit'', category = Liabilities, subcategory = ''Current Liabilities''\<rparr>,
      \<lparr>number = ''2500'', name = ''Long-Term Loans Payable'', category = Liabilities, subcategory = ''Long-Term Liabilities''\<rparr>,
      \<lparr>number = ''2510'', name = ''Mortgage Payable'', category = Liabilities, subcategory = ''Long-Term Liabilities''\<rparr>,
      \<lparr>number = ''3010'', name = ''Owner's Capital'', category = Equity, subcategory = ''Owner's Equity''\<rparr>,
      \<lparr>number = ''3020'', name = ''Common Stock'', category = Equity, subcategory = ''Shareholder's Equity''\<rparr>,
      \<lparr>number = ''3030'', name = ''Additional Paid-In Capital'', category = Equity, subcategory = ''Shareholder's Equity''\<rparr>,
      \<lparr>number = ''3100'', name = ''Retained Earnings'', category = Equity, subcategory = ''Retained Earnings''\<rparr>,
      \<lparr>number = ''3200'', name = ''Owner's Drawings'', category = Equity, subcategory = ''Distributions''\<rparr>,
      \<lparr>number = ''3210'', name = ''Dividends'', category = Equity, subcategory = ''Distributions''\<rparr>,
      \<lparr>number = ''4010'', name = ''Product Sales Revenue'', category = Revenue, subcategory = ''Operating Revenue''\<rparr>,
      \<lparr>number = ''4020'', name = ''Service Revenue'', category = Revenue, subcategory = ''Operating Revenue''\<rparr>,
      \<lparr>number = ''4100'', name = ''Other Operating Revenue'', category = Revenue, subcategory = ''Operating Revenue''\<rparr>,
      \<lparr>number = ''4900'', name = ''Interest Income'', category = Revenue, subcategory = ''Non-Operating Revenue''\<rparr>,
      \<lparr>number = ''4910'', name = ''Other Income'', category = Revenue, subcategory = ''Non-Operating Revenue''\<rparr>,
      \<lparr>number = ''5010'', name = ''Cost of Materials'', category = Expenses, subcategory = ''Cost of Goods Sold''\<rparr>,
      \<lparr>number = ''5020'', name = ''Direct Labor'', category = Expenses, subcategory = ''Cost of Goods Sold''\<rparr>,
      \<lparr>number = ''5030'', name = ''Subcontract Manufacturing'', category = Expenses, subcategory = ''Cost of Goods Sold''\<rparr>,
      \<lparr>number = ''5040'', name = ''Freight-In'', category = Expenses, subcategory = ''Cost of Goods Sold''\<rparr>,
      \<lparr>number = ''6010'', name = ''Salaries and Wages'', category = Expenses, subcategory = ''Operating Expenses''\<rparr>,
      \<lparr>number = ''6020'', name = ''Payroll Taxes'', category = Expenses, subcategory = ''Operating Expenses''\<rparr>,
      \<lparr>number = ''6030'', name = ''Employee Benefits'', category = Expenses, subcategory = ''Operating Expenses''\<rparr>,
      \<lparr>number = ''6100'', name = ''Rent Expense'', category = Expenses, subcategory = ''Operating Expenses''\<rparr>,
      \<lparr>number = ''6110'', name = ''Utilities - Electric'', category = Expenses, subcategory = ''Operating Expenses''\<rparr>,
      \<lparr>number = ''6120'', name = ''Utilities - Water & Gas'', category = Expenses, subcategory = ''Operating Expenses''\<rparr>,
      \<lparr>number = ''6130'', name = ''Internet & Phone'', category = Expenses, subcategory = ''Operating Expenses''\<rparr>,
      \<lparr>number = ''6200'', name = ''Office Supplies'', category = Expenses, subcategory = ''Operating Expenses''\<rparr>,
      \<lparr>number = ''6300'', name = ''Marketing & Advertising'', category = Expenses, subcategory = ''Operating Expenses''\<rparr>,
      \<lparr>number = ''6400'', name = ''Travel Expense'', category = Expenses, subcategory = ''Operating Expenses''\<rparr>,
      \<lparr>number = ''6410'', name = ''Meals & Entertainment'', category = Expenses, subcategory = ''Operating Expenses''\<rparr>,
      \<lparr>number = ''6500'', name = ''Insurance Expense'', category = Expenses, subcategory = ''Operating Expenses''\<rparr>,
      \<lparr>number = ''6600'', name = ''Legal Fees'', category = Expenses, subcategory = ''Operating Expenses''\<rparr>,
      \<lparr>number = ''6610'', name = ''Accounting Fees'', category = Expenses, subcategory = ''Operating Expenses''\<rparr>,
      \<lparr>number = ''6620'', name = ''Consulting Fees'', category = Expenses, subcategory = ''Operating Expenses''\<rparr>,
      \<lparr>number = ''6700'', name = ''Software & Subscriptions'', category = Expenses, subcategory = ''Operating Expenses''\<rparr>,
      \<lparr>number = ''6800'', name = ''Repairs & Maintenance'', category = Expenses, subcategory = ''Operating Expenses''\<rparr>,
      \<lparr>number = ''6900'', name = ''Bank Fees'', category = Expenses, subcategory = ''Operating Expenses''\<rparr>,
      \<lparr>number = ''6910'', name = ''Merchant Fees'', category = Expenses, subcategory = ''Operating Expenses''\<rparr>,
      \<lparr>number = ''6950'', name = ''Depreciation Expense'', category = Expenses, subcategory = ''Operating Expenses''\<rparr>,
      \<lparr>number = ''6990'', name = ''Income Tax Expense'', category = Expenses, subcategory = ''Operating Expenses''\<rparr>]"

text \<open>\<^verbatim>\<open>SELECT COUNT(*) AS count FROM chart_of_accounts\<close>\<close>

definition select_count :: "db \<Rightarrow> (pg_error + nat) \<times> db" where
  "select_count d = (Inr (length (chart_of_accounts d)), d)"

text \<open>\<^verbatim>\<open>INSERT INTO chart_of_accounts\<close> with \<^verbatim>\<open>"isActive"\<close> true and no description. The
  account number is unique.\<close>

definition insert_account ::
  "string \<Rightarrow> string \<Rightarrow> category \<Rightarrow> string \<Rightarrow> timestamp \<Rightarrow> timestamp \<Rightarrow> db \<Rightarrow>
   (pg_error + unit) \<times> db" where
  "insert_account num nm cat sub created updated d =
     (case varchar 10 (Some num) of Inl e \<Rightarrow> (Inl e, d) | Inr n0 \<Rightarrow>
     (case varchar 256 (Some nm) of Inl e \<Rightarrow> (Inl e, d) | Inr m0 \<Rightarrow>
     (case varchar 128 (Some sub) of Inl e \<Rightarrow> (Inl e, d) | Inr s \<Rightarrow>
      let new_id = coa_id_seq d + 1;
          d1 = d\<lparr>coa_id_seq := new_id\<rparr>
      in (case n0 of None \<Rightarrow> (Inl NotNullViolation, d1) | Some n \<Rightarrow>
         (case m0 of None \<Rightarrow> (Inl NotNullViolation, d1) | Some m \<Rightarrow>
          if new_id \<in> set (map coa_id (chart_of_accounts d)) then (Inl UniqueViolation, d1)
          else if n \<in> set (map coa_accountNumber (chart_of_accounts d))
            then (Inl UniqueViolation, d1)
          else (Inr (),
            d1\<lparr>chart_of_accounts := chart_of_accounts d @
                 [\<lparr>coa_id = new_id, coa_accountNumber = n, coa_accountName = m,
                   coa_category = cat, coa_subcategory = s, coa_description = None,
                   coa_isActive = True, coa_createdAt = created, coa_updatedAt = updated\<rparr>]\<rparr>))))))"

text \<open>The loop over \<^verbatim>\<open>accounts\<close>; \<open>i\<close> counts the accounts already inserted. The client
  has no transaction open, so every insert is committed at once.\<close>

fun insert_accounts ::
  "faults \<Rightarrow> timestamp \<Rightarrow> nat \<Rightarrow> seed_account list \<Rightarrow> client \<Rightarrow> (error + unit) \<times> client" where
  "insert_accounts f now i [] cl = (Inr (), cl)"
| "insert_accounts f now i (account # rest) cl =
     (case client_query f (InsertAccount i)
             (insert_account (number account) (name account) (category account)
                (subcategory account) now now) cl of
        (Inl e, cl') \<Rightarrow> (Inl e, cl')
      | (Inr _, cl') \<Rightarrow> insert_accounts f now (Suc i) rest cl')"

definition seedChartOfAccounts :: "faults \<Rightarrow> timestamp \<Rightarrow> client \<Rightarrow> (error + unit) \<times> client" where
  "seedChartOfAccounts f now cl =
     (case client_query f SelectCount select_count cl of
        (Inl e, cl') \<Rightarrow> (Inl e, cl')
      | (Inr cnt, cl') \<Rightarrow>
          if cnt > 0 then (Inr (), cl')
          else insert_accounts f now 0 accounts cl')"

text \<open>The row that the seeding writes for an account, and the rows for a list of accounts
  when the sequence stands at \<open>i\<close>.\<close>

definition seeded_row :: "int \<Rightarrow> timestamp \<Rightarrow> seed_account \<Rightarrow> account" where
  "seeded_row i now a =
     \<lparr>coa_id = i, coa_accountNumber = number a, coa_accountName = name a,
      coa_category = category a, coa_subcategory = Some (subcategory a),
      coa_description = None, coa_isActive = True, coa_createdAt = now, coa_updatedAt = now\<rparr>"

fun seeded_rows :: "int \<Rightarrow> timestamp \<Rightarrow> seed_account list \<Rightarrow> account list" where
  "seeded_rows i now [] = []"
| "seeded_rows i now (a # rest) = seeded_row (i + 1) now a # seeded_rows (i + 1) now rest"

subsection \<open>Reading the ledger\<close>

text \<open>\<^verbatim>\<open>executeQuery\<close>: both configuration checks, then a fresh client that connects, runs
  the one statement and is closed.\<close>

definition executeQuery ::
  "databaseConfig \<Rightarrow> faults \<Rightarrow> (db \<Rightarrow> pg_error + 'a) \<Rightarrow> db \<Rightarrow> error + 'a" where
  "executeQuery cfg f sql d =
     (case validateAccountingDatabaseConfig cfg of Some e \<Rightarrow> Inl e | None \<Rightarrow>
     (case validateAccountingQueryConfig cfg of Some e \<Rightarrow> Inl e | None \<Rightarrow>
      if f Connect then Inl (StorageError ConnectionFailure)
      else if f Query then Inl (StorageError ConnectionFailure)
      else (case sql d of Inl e \<Rightarrow> Inl (StorageError e) | Inr rows \<Rightarrow> Inr rows)))"

text \<open>The parameter of \<^verbatim>\<open>LIMIT\<close> is a \<^verbatim>\<open>BIGINT\<close> that must not be negative.\<close>

definition limit_in :: "jsnum \<Rightarrow> pg_error + nat" where
  "limit_in n =
     (case n of
        Fin q \<Rightarrow>
          if of_int \<lfloor>q\<rfloor> \<noteq> q then Inl InvalidTextRepresentation
          else if \<lfloor>q\<rfloor> < - 9223372036854775808 \<or> 9223372036854775807 < \<lfloor>q\<rfloor>
            then Inl NumericValueOutOfRange
          else if \<lfloor>q\<rfloor> < 0 then Inl InvalidRowCount
          else Inr (nat \<lfloor>q\<rfloor>)
      | _ \<Rightarrow> Inl InvalidTextRepresentation)"

text \<open>\<^verbatim>\<open>SELECT ... FROM journal_entries je ORDER BY je."entryDate" DESC, je.id DESC LIMIT $1\<close>.
  Descending on the date and then on the id is ascending on the pair of their negations,
  pairs being ordered lexicographically.\<close>

definition select_journal_entries :: "jsnum \<Rightarrow> db \<Rightarrow> pg_error + journal_entry list" where
  "select_journal_entries limit d =
     (case limit_in limit of
        Inl e \<Rightarrow> Inl e
      | Inr n \<Rightarrow> Inr (take n (sort_key (\<lambda>e. (- je_entryDate e, - je_id e)) (journal_entries d))))"

text \<open>\<^verbatim>\<open>getJournalEntries(limit = 50)\<close>\<close>

definition getJournalEntries ::
  "databaseConfig \<Rightarrow> faults \<Rightarrow> jsnum option \<Rightarrow> db \<Rightarrow> error + journal_entry list" where
  "getJournalEntries cfg f limit d =
     executeQuery cfg f
       (select_journal_entries (case limit of None \<Rightarrow> Fin 50 | Some n \<Rightarrow> n)) d"

text \<open>\<^verbatim>\<open>getJournalEntryLines(journalEntryId)\<close>: the lines of one entry with their accounts,
  \<^verbatim>\<open>ORDER BY jel.id ASC\<close>.\<close>

definition select_journal_entry_lines :: "int \<Rightarrow> db \<Rightarrow> pg_error + line_with_account list" where
  "select_journal_entry_lines i d =
     Inr (sort_key (\<lambda>r. jel_id (lwa_line r))
            (concat (map (join_account (chart_of_accounts d))
               (filter (\<lambda>l. jel_journalEntryId l = i) (journal_entry_lines d)))))"

definition getJournalEntryLines ::
  "databaseConfig \<Rightarrow> faults \<Rightarrow> int \<Rightarrow> db \<Rightarrow> error + line_with_account list" where
  "getJournalEntryLines cfg f journalEntryId d =
     executeQuery cfg f (select_journal_entry_lines journalEntryId) d"

subsection \<open>getAccountBalances\<close>

text \<open>\<^verbatim>\<open>chart_of_accounts coa LEFT JOIN journal_entry_lines jel ON coa.id = jel."accountId"\<close>:
  an account without lines gives one row whose line is \<^verbatim>\<open>NULL\<close>.\<close>

definition left_join_lines ::
  "journal_entry_line list \<Rightarrow> account \<Rightarrow> (account \<times> journal_entry_line option) list" where
  "left_join_lines jel a =
     (case filter (\<lambda>l. coa_id a = jel_accountId l) jel of
        [] \<Rightarrow> [(a, None)]
      | ls \<Rightarrow> map (\<lambda>l. (a, Some l)) ls)"

text \<open>\<^verbatim>\<open>GROUP BY\<close>: one group for each value of the key, with the rows that have it.\<close>

definition group_by :: "('a \<Rightarrow> 'k) \<Rightarrow> 'a list \<Rightarrow> ('k \<times> 'a list) list" where
  "group_by key rows = map (\<lambda>k. (k, filter (\<lambda>r. key r = k) rows)) (remdups (map key rows))"

text \<open>\<^verbatim>\<open>SUM\<close> skips \<^verbatim>\<open>NULL\<close> and is \<^verbatim>\<open>NULL\<close> when nothing is left; \<^verbatim>\<open>COALESCE\<close>.\<close>

definition sql_sum :: "rat option list \<Rightarrow> rat option" where
  "sql_sum vs = (case List.map_filter (\<lambda>v. v) vs of [] \<Rightarrow> None | xs \<Rightarrow> Some (sum_list xs))"

definition coalesce :: "'a option \<Rightarrow> 'a \<Rightarrow> 'a" where
  "coalesce v dflt = (case v of None \<Rightarrow> dflt | Some x \<Rightarrow> x)"

record balance_row =
  br_category :: category
  br_accountNumber :: string
  br_accountName :: string
  br_total_debit :: rat
  br_total_credit :: rat
  br_balance :: rat

text \<open>The select list over one group.\<close>

definition aggregate ::
  "(int \<times> category \<times> string \<times> string) \<times> (account \<times> journal_entry_line option) list \<Rightarrow>
   balance_row" where
  "aggregate g =
     (case g of ((i, cat, num, nm), rows) \<Rightarrow>
        \<lparr>br_category = cat, br_accountNumber = num, br_accountName = nm,
         br_total_debit = coalesce (sql_sum (map (\<lambda>(a, l). map_option jel_debit l) rows)) 0,
         br_total_credit = coalesce (sql_sum (map (\<lambda>(a, l). map_option jel_credit l) rows)) 0,
         br_balance = coalesce (sql_sum (map (\<lambda>(a, l). map_option jel_debit l) rows)) 0
                    - coalesce (sql_sum (map (\<lambda>(a, l). map_option jel_credit l) rows)) 0\<rparr>)"

text \<open>The statement of getAccountBalances: join, \<^verbatim>\<open>WHERE coa."isActive" = true\<close>,
  \<^verbatim>\<open>GROUP BY coa.id, coa.category, coa."accountNumber", coa."accountName"\<close>, the sums, and
  \<^verbatim>\<open>ORDER BY coa."accountNumber" ASC\<close>. Account numbers are compared character by
  character.\<close>

definition select_account_balances :: "db \<Rightarrow> pg_error + balance_row list" where
  "select_account_balances d =
     Inr (sort_key br_accountNumber
            (map aggregate
               (group_by (\<lambda>(a, l). (coa_id a, coa_category a, coa_accountNumber a, coa_accountName a))
                  (filter (\<lambda>(a, l). coa_isActive a)
                     (concat (map (left_join_lines (journal_entry_lines d))
                        (chart_of_accounts d)))))))"

record account_balance =
  accountNumber :: string
  accountName :: string
  balance :: rat
  totalDebit :: rat
  totalCredit :: rat

record grouped =
  assets :: "account_balance list"
  liabilities :: "account_balance list"
  equity :: "account_balance list"
  revenue :: "account_balance list"
  expenses :: "account_balance list"

text \<open>\<^verbatim>\<open>parseFloat(x) || 0\<close> on a column of type \<^verbatim>\<open>NUMERIC\<close>.\<close>

definition parseFloat_or_0 :: "rat \<Rightarrow> rat" where
  "parseFloat_or_0 x = (if x \<noteq> 0 then x else 0)"

text \<open>The body of \<^verbatim>\<open>rows.forEach\<close>. The table admits no other category than the five, so
  \<^verbatim>\<open>grouped[row.category]\<close> is always there.\<close>

definition push_row :: "grouped \<Rightarrow> balance_row \<Rightarrow> grouped" where
  "push_row g row =
     (let item = \<lparr>accountNumber = br_accountNumber row, accountName = br_accountName row,
                  balance = parseFloat_or_0 (br_balance row),
                  totalDebit = parseFloat_or_0 (br_total_debit row),
                  totalCredit = parseFloat_or_0 (br_total_credit row)\<rparr>
      in case br_category row of
           Assets \<Rightarrow> g\<lparr>assets := assets g @ [item]\<rparr>
         | Liabilities \<Rightarrow> g\<lparr>liabilities := liabilities g @ [item]\<rparr>
         | Equity \<Rightarrow> g\<lparr>equity := equity g @ [item]\<rparr>
         | Revenue \<Rightarrow> g\<lparr>revenue := revenue g @ [item]\<rparr>
         | Expenses \<Rightarrow> g\<lparr>expenses := expenses g @ [item]\<rparr>)"

definition getAccountBalances :: "databaseConfig \<Rightarrow> faults \<Rightarrow> db \<Rightarrow> error + grouped" where
  "getAccountBalances cfg f d =
     (case executeQuery cfg f select_account_balances d of
        Inl e \<Rightarrow> Inl e
      | Inr rows \<Rightarrow>
          Inr (foldl push_row
                 \<lparr>assets = [], liabilities = [], equity = [], revenue = [], expenses = []\<rparr> rows))"

subsection \<open>getAccountingOverview\<close>



subsection \<open>The balances as the specification words them\<close>

text \<open>For an account: the sum of the debits of its lines, the sum of their credits, and the
  difference of the two.\<close>

definition balance_of :: "journal_entry_line list \<Rightarrow> account \<Rightarrow> account_balance" where
  "balance_of jel a =
     \<lparr>accountNumber = coa_accountNumber a, accountName = coa_accountName a,
      balance = (\<Sum>l\<leftarrow>filter (\<lambda>l. jel_accountId l = coa_id a) jel. jel_debit l)
              - (\<Sum>l\<leftarrow>filter (\<lambda>l. jel_accountId l = coa_id a) jel. jel_credit l),
      totalDebit = (\<Sum>l\<leftarrow>filter (\<lambda>l. jel_accountId l = coa_id a) jel. jel_debit l),
      totalCredit = (\<Sum>l\<leftarrow>filter (\<lambda>l. jel_accountId l = coa_id a) jel. jel_credit l)\<rparr>"

text \<open>The bucket of a category: the active accounts in ascending order of their number, those
  of the category, each with its balance.\<close>

definition bucket :: "db \<Rightarrow> category \<Rightarrow> account_balance list" where
  "bucket d c =
     map (balance_of (journal_entry_lines d))
       (filter (\<lambda>a. coa_category a = c)
          (sort_key coa_accountNumber (filter coa_isActive (chart_of_accounts d))))"

definition accountBalances_spec :: "db \<Rightarrow> grouped" where
  "accountBalances_spec d =
     \<lparr>assets = bucket d Assets, liabilities = bucket d Liabilities, equity = bucket d Equity,
      revenue = bucket d Revenue, expenses = bucket d Expenses\<rparr>"

text \<open>The bucket of a category in a result of getAccountBalances.\<close>

fun bucket_of :: "grouped \<Rightarrow> category \<Rightarrow> account_balance list" where
  "bucket_of g Assets = assets g"
| "bucket_of g Liabilities = liabilities g"
| "bucket_of g Equity = equity g"
| "bucket_of g Revenue = revenue g"
| "bucket_of g Expenses = expenses g"

text \<open>The row of the statement of getAccountBalances for an account.\<close>

definition balance_row_of :: "journal_entry_line list \<Rightarrow> account \<Rightarrow> balance_row" where
  "balance_row_of jel a =
     \<lparr>br_category = coa_category a, br_accountNumber = coa_accountNumber a,
      br_accountName = coa_accountName a,
      br_total_debit = (\<Sum>l\<leftarrow>filter (\<lambda>l. jel_accountId l = coa_id a) jel. jel_debit l),
      br_total_credit = (\<Sum>l\<leftarrow>filter (\<lambda>l. jel_accountId l = coa_id a) jel. jel_credit l),
      br_balance = (\<Sum>l\<leftarrow>filter (\<lambda>l. jel_accountId l = coa_id a) jel. jel_debit l)
                 - (\<Sum>l\<leftarrow>filter (\<lambda>l. jel_accountId l = coa_id a) jel. jel_credit l)\<rparr>"

text \<open>The object that \<^verbatim>\<open>forEach\<close> pushes for a row.\<close>

definition item_of :: "balance_row \<Rightarrow> account_balance" where
  "item_of row =
     \<lparr>accountNumber = br_accountNumber row, accountName = br_accountName row,
      balance = parseFloat_or_0 (br_balance row),
      totalDebit = parseFloat_or_0 (br_total_debit row),
      totalCredit = parseFloat_or_0 (br_total_credit row)\<rparr>"

subsection \<open>Properties of a run of createJournalEntry\<close>

text \<open>The tables hold the same rows (the sequences may have moved).\<close>

definition same_rows :: "db \<Rightarrow> db \<Rightarrow> bool" where
  "same_rows d d' =
     (chart_of_accounts d' = chart_of_accounts d \<and> journal_entries d' = journal_entries d \<and>
      journal_entry_lines d' = journal_entry_lines d)"

text \<open>\<open>row\<close> is what the \<^verbatim>\<open>INSERT\<close> of the loop writes for the submitted \<open>line\<close>.\<close>

definition stored_as :: "platform \<Rightarrow> int \<Rightarrow> timestamp \<Rightarrow> jsvalue \<Rightarrow> journal_entry_line \<Rightarrow> bool" where
  "stored_as pf journalEntryId now line row =
     (jel_journalEntryId row = journalEntryId \<and>
      int4_param pf (js_get line ''accountId'') = Inr (Some (jel_accountId row)) \<and>
      (case amount pf ''debit'' line of
         Inl e \<Rightarrow> False | Inr n \<Rightarrow> numeric_15_2 n = Inr (jel_debit row)) \<and>
      (case amount pf ''credit'' line of
         Inl e \<Rightarrow> False | Inr n \<Rightarrow> numeric_15_2 n = Inr (jel_credit row)) \<and>
      jel_description row = text_param pf (or_null (js_get line ''description'')) \<and>
      jel_createdAt row = now \<and> jel_updatedAt row = now)"

text \<open>All rows of the entry are visible: \<open>d'\<close> is \<open>d\<close> with one more journal entry and,
  in the order of the payload, one more row for each of its lines. \<open>descr\<close> and \<open>lines\<close> are
  the members \<^verbatim>\<open>description\<close> and \<^verbatim>\<open>lines\<close> of the payload.\<close>

definition entry_added ::
  "platform \<Rightarrow> timestamp \<Rightarrow> jsvalue \<Rightarrow> jsvalue \<Rightarrow> db \<Rightarrow> db \<Rightarrow> bool" where
  "entry_added pf now descr lines d d' =
     (\<exists>header rows ls.
        lines = JArray ls \<and>
        chart_of_accounts d' = chart_of_accounts d \<and>
        journal_entries d' = journal_entries d @ [header] \<and>
        journal_entry_lines d' = journal_entry_lines d @ rows \<and>
        list_all2 (stored_as pf (je_id header) now) ls rows \<and>
        Some (je_description header) = text_param pf descr \<and>
        je_createdAt header = now \<and> je_updatedAt header = now)"

text \<open>A line that no \<^verbatim>\<open>INSERT\<close> accepts: its account is absent, is not an integer or is
  not in the chart of accounts, or an amount does not fit its column.\<close>

definition line_rejected :: "platform \<Rightarrow> account list \<Rightarrow> jsvalue \<Rightarrow> bool" where
  "line_rejected pf coa line =
     ((case int4_param pf (js_get line ''accountId'') of
         Inl e \<Rightarrow> True
       | Inr None \<Rightarrow> True
       | Inr (Some a) \<Rightarrow> a \<notin> set (map coa_id coa)) \<or>
      (case amount pf ''debit'' line of Inl e \<Rightarrow> True | Inr n \<Rightarrow> isl (numeric_15_2 n)) \<or>
      (case amount pf ''credit'' line of Inl e \<Rightarrow> True | Inr n \<Rightarrow> isl (numeric_15_2 n)))"

text \<open>What the \<open>try\<close> block leaves behind: either an error with the transaction still open,
  or the whole entry written and committed.\<close>

definition written ::
  "platform \<Rightarrow> faults \<Rightarrow> timestamp \<Rightarrow> jsvalue \<Rightarrow> jsvalue \<Rightarrow> db \<Rightarrow> db \<Rightarrow> bool" where
  "written pf f now descr lines d d' =
     (entry_added pf now descr lines d d' \<and> \<not> f InsertEntry \<and> \<not> f Commit \<and>
      (\<forall>ls. lines = JArray ls \<longrightarrow>
         (\<forall>k<length ls. \<not> f (InsertLine k) \<and>
                        \<not> line_rejected pf (chart_of_accounts d) (ls ! k))))"

text \<open>The payload passes the validation: no issue and no exception.\<close>

definition payload_valid :: "platform \<Rightarrow> jsvalue \<Rightarrow> bool" where
  "payload_valid pf payload =
     (\<not> nullish payload \<and>
      journal_entry_issues pf (js_get payload ''entryDate'') (js_get payload ''description'')
        (js_get payload ''lines'') = Inr [])"

text \<open>Both configuration checks pass.\<close>

definition config_valid :: "databaseConfig \<Rightarrow> bool" where
  "config_valid cfg =
     (validateAccountingDatabaseConfig cfg = None \<and> validateAccountingQueryConfig cfg = None)"

subsection \<open>A small ledger for examples\<close>

definition example_config :: databaseConfig where
  "example_config =
     \<lparr>url = ''localhost'', port = Fin 5432, username = ''postgres'', password = [],
      database = ''testing723422''\<rparr>"

definition no_faults :: faults where
  "no_faults c = False"

text \<open>A platform for the examples. Their payloads hold numbers for the amounts and the
  accounts and strings for the texts, so of the five conversions only the reading of the
  date is ever asked.\<close>

definition example_platform :: platform where
  "example_platform =
     \<lparr>StringToNumber = (\<lambda>s. NaN),
      ArrayToNumber = (\<lambda>xs. Some NaN),
      prepareValue = (\<lambda>v. []),
      date_in = (\<lambda>s. if s = ''2024-01-01'' then Some 8766 else None),
      int4_in = (\<lambda>s. Inl InvalidTextRepresentation)\<rparr>"

definition example_account :: "int \<Rightarrow> string \<Rightarrow> string \<Rightarrow> category \<Rightarrow> account" where
  "example_account i n nm c =
     \<lparr>coa_id = i, coa_accountNumber = n, coa_accountName = nm, coa_category = c,
      coa_subcategory = None, coa_description = None, coa_isActive = True,
      coa_createdAt = 0, coa_updatedAt = 0\<rparr>"

definition example_db :: db where
  "example_db =
     \<lparr>chart_of_accounts =
        [example_account 1 ''1010'' ''Cash - Checking'' Assets,
         example_account 2 ''6100'' ''Rent Expense'' Expenses],
      journal_entries = [], journal_entry_lines = [],
      coa_id_seq = 2, je_id_seq = 0, jel_id_seq = 0\<rparr>"

definition example_line :: "rat \<Rightarrow> rat \<Rightarrow> rat \<Rightarrow> jsvalue" where
  "example_line a deb cre =
     JObject [(''accountId'', JNumber a), (''debit'', JNumber deb), (''credit'', JNumber cre)]"

definition example_payload :: "jsvalue list \<Rightarrow> jsvalue" where
  "example_payload ls =
     JObject [(''entryDate'', JString ''2024-01-01''), (''description'', JString ''Rent''),
              (''lines'', JArray ls)]"

definition example_entry :: journal_entry where
  "example_entry =
     \<lparr>je_id = 1, je_entryDate = 8766, je_description = ''Rent'', je_referenceNumber = None,
      je_createdBy = None, je_createdAt = 1, je_updatedAt = 1\<rparr>"

definition example_row :: "int \<Rightarrow> int \<Rightarrow> rat \<Rightarrow> rat \<Rightarrow> journal_entry_line" where
  "example_row i a deb cre =
     \<lparr>jel_id = i, jel_journalEntryId = 1, jel_accountId = a, jel_debit = deb, jel_credit = cre,
      jel_description = None, jel_createdAt = 1, jel_updatedAt = 1\<rparr>"

definition empty_db :: db where
  "empty_db =
     \<lparr>chart_of_accounts = [], journal_entries = [], journal_entry_lines = [],
      coa_id_seq = 0, je_id_seq = 0, jel_id_seq = 0\<rparr>"

text \<open>The example ledger after the rent entry.\<close>

definition example_ledger :: db where
  "example_ledger =
     example_db\<lparr>journal_entries := [example_entry],
                journal_entry_lines := [example_row 1 1 0 1500, example_row 2 2 1500 0],
                je_id_seq := 1, jel_id_seq := 2\<rparr>"

subsection \<open>Integrity of the tables\<close>

text \<open>What the primary keys and the foreign keys of the three tables say: ids are
  distinct in each table, account numbers are distinct, and every line belongs to a journal
  entry and to an account.\<close>

definition integrity :: "db \<Rightarrow> bool" where
  "integrity d =
     (distinct (map coa_id (chart_of_accounts d)) \<and>
      distinct (map coa_accountNumber (chart_of_accounts d)) \<and>
      distinct (map je_id (journal_entries d)) \<and>
      distinct (map jel_id (journal_entry_lines d)) \<and>
      (\<forall>l\<in>set (journal_entry_lines d).
         jel_journalEntryId l \<in> set (map je_id (journal_entries d)) \<and>
         jel_accountId l \<in> set (map coa_id (chart_of_accounts d))))"

section \<open>Proofs\<close>

subsection \<open>Doubles\<close>

lemma ilog2_bounds:
  assumes "0 < q"
  shows "2 powi (ilog2 q) \<le> q \<and> q < 2 powi (ilog2 q + 1)"
proof (cases "1 \<le> q")
  case True
  define n where "n = \<lfloor>q\<rfloor>"
  have n: "1 \<le> n" "of_int n \<le> q" "q < of_int n + 1"
    using True by (simp_all add: n_def le_floor_iff) linarith
  from bitlen_bounds[of n] n(1)
  have b: "2 ^ nat (bitlen n - 1) \<le> n" "n < 2 ^ nat (bitlen n)" by simp_all
  have b1: "1 \<le> bitlen n" using n(1) by (auto simp: bitlen_alt_def)
  have e: "ilog2 q = bitlen n - 1" using True by (simp add: ilog2_def n_def)
  have "(2::rat) powi (bitlen n - 1) = of_int (2 ^ nat (bitlen n - 1))"
    using b1 by (simp add: power_int_nonneg_exp)
  also have "\<dots> \<le> of_int n" using b(1) by (simp only: of_int_le_iff)
  finally have lo: "2 powi (ilog2 q) \<le> q" using n(2) e by simp
  have "n + 1 \<le> 2 ^ nat (bitlen n)" using b(2) by simp
  hence "(of_int (n + 1) :: rat) \<le> of_int (2 ^ nat (bitlen n))" by (simp only: of_int_le_iff)
  also have "\<dots> = 2 powi (bitlen n)" using b1 by (simp add: power_int_nonneg_exp)
  finally have "q < 2 powi (ilog2 q + 1)" using n(3) e by simp
  with lo show ?thesis by simp
next
  case False
  define c where "c = \<lceil>1 / q\<rceil>"
  have q1: "1 < 1 / q" using False assms by simp
  have c: "2 \<le> c" "1 / q \<le> of_int c" "of_int c - 1 < 1 / q"
    using q1 by (simp_all add: c_def le_ceiling_iff) linarith
  define k where "k = bitlen (c - 1)"
  from bitlen_bounds[of "c - 1"] c(1)
  have b: "2 ^ nat (k - 1) \<le> c - 1" "c - 1 < 2 ^ nat k" by (simp_all add: k_def)
  have k1: "1 \<le> k" using c(1) by (auto simp: bitlen_alt_def k_def)
  have e: "ilog2 q = - k" using False by (simp add: ilog2_def c_def k_def)
  have "c \<le> 2 ^ nat k" using b(2) by simp
  hence "(of_int c :: rat) \<le> of_int (2 ^ nat k)" by (simp only: of_int_le_iff)
  also have "\<dots> = 2 powi k" using k1 by (simp add: power_int_nonneg_exp)
  finally have "1 / q \<le> 2 powi k" using c(2) by simp
  hence "1 / (2 powi k) \<le> q" using assms by (simp add: field_simps)
  hence lo: "2 powi (ilog2 q) \<le> q" by (simp add: e power_int_minus_divide)
  have "(2::rat) powi (k - 1) = of_int (2 ^ nat (k - 1))"
    using k1 by (simp add: power_int_nonneg_exp)
  also have "\<dots> \<le> of_int (c - 1)" using b(1) by (simp only: of_int_le_iff)
  also have "\<dots> < 1 / q" using c(3) by simp
  finally have "q < 1 / 2 powi (k - 1)" using assms by (simp add: field_simps)
  also have "1 / (2::rat) powi (k - 1) = 2 powi (- (k - 1))" by (rule power_int_minus_divide[symmetric])
  finally have "q < 2 powi (ilog2 q + 1)" by (simp add: e)
  with lo show ?thesis by simp
qed

lemma ilog2_eqI:
  assumes "0 < q" "2 powi e \<le> q" "q < 2 powi (e + 1)"
  shows "ilog2 q = e"
proof -
  from ilog2_bounds[OF assms(1)]
  have b: "2 powi (ilog2 q) \<le> q" "q < 2 powi (ilog2 q + 1)" by simp_all
  have "(2::rat) powi e < 2 powi (ilog2 q + 1)" using assms(2) b(2) by simp
  hence 1: "e < ilog2 q + 1"
    by (metis linorder_not_less one_le_numeral power_int_increasing)
  have "(2::rat) powi (ilog2 q) < 2 powi (e + 1)" using assms(3) b(1) by simp
  hence 2: "ilog2 q < e + 1"
    by (metis linorder_not_less one_le_numeral power_int_increasing)
  from 1 2 show ?thesis by simp
qed

lemma ilog10_bounds:
  assumes "0 < q"
  shows "10 powi (ilog10 q) \<le> q \<and> q < 10 powi (ilog10 q + 1)"
proof (cases "1 \<le> q")
  case True
  define n where "n = nat \<lfloor>q\<rfloor>"
  have n: "1 \<le> n" "of_nat n \<le> q" "q < of_nat n + 1"
    using True by (simp_all add: n_def le_nat_iff) linarith+
  define k where "k = floorlog 10 n"
  from floorlog_bounds[of n 10] n(1)
  have b: "10 ^ (k - 1) \<le> n" "n < 10 ^ k" by (simp_all add: k_def)
  have k1: "1 \<le> k" using b(2) n(1) by (cases k) simp_all
  have e: "ilog10 q = int k - 1" using True by (simp add: ilog10_def n_def k_def)
  have "(10::rat) powi (int k - 1) = of_nat (10 ^ (k - 1))"
    using k1 by (simp add: power_int_nonneg_exp nat_diff_distrib)
  also have "\<dots> \<le> of_nat n" using b(1) by (simp only: of_nat_le_iff)
  finally have lo: "10 powi (ilog10 q) \<le> q" using n(2) e by simp
  have "n + 1 \<le> 10 ^ k" using b(2) by simp
  hence "(of_nat (n + 1) :: rat) \<le> of_nat (10 ^ k)" by (simp only: of_nat_le_iff)
  also have "\<dots> = 10 powi (int k)" by simp
  finally have "q < 10 powi (ilog10 q + 1)" using n(3) e by simp
  with lo show ?thesis by simp
next
  case False
  define c where "c = nat (\<lceil>1 / q\<rceil> - 1)"
  have q1: "1 < 1 / q" using False assms by simp
  have c0: "2 \<le> \<lceil>1 / q\<rceil>" using q1 by (simp add: le_ceiling_iff)
  have c: "1 \<le> c" "1 / q \<le> of_nat c + 1" "of_nat c < 1 / q"
    using c0 by (simp_all add: c_def le_nat_iff) linarith+
  define k where "k = floorlog 10 c"
  from floorlog_bounds[of c 10] c(1)
  have b: "10 ^ (k - 1) \<le> c" "c < 10 ^ k" by (simp_all add: k_def)
  have k1: "1 \<le> k" using b(2) c(1) by (cases k) simp_all
  have e: "ilog10 q = - int k" using False by (simp add: ilog10_def c_def k_def)
  have "c + 1 \<le> 10 ^ k" using b(2) by simp
  hence "(of_nat (c + 1) :: rat) \<le> of_nat (10 ^ k)" by (simp only: of_nat_le_iff)
  also have "\<dots> = 10 powi (int k)" by simp
  finally have "1 / q \<le> 10 powi (int k)" using c(2) by simp
  hence "1 / (10 powi (int k)) \<le> q" using assms by (simp add: field_simps)
  hence lo: "10 powi (ilog10 q) \<le> q" by (simp add: e power_int_minus_divide)
  have "(10::rat) powi (int k - 1) = of_nat (10 ^ (k - 1))"
    using k1 by (simp add: power_int_nonneg_exp nat_diff_distrib)
  also have "\<dots> \<le> of_nat c" using b(1) by (simp only: of_nat_le_iff)
  also have "\<dots> < 1 / q" using c(3) by simp
  finally have "q < 1 / 10 powi (int k - 1)" using assms by (simp add: field_simps)
  also have "1 / (10::rat) powi (int k - 1) = 10 powi (- (int k - 1))" by (rule power_int_minus_divide[symmetric])
  finally have "q < 10 powi (ilog10 q + 1)" by (simp add: e)
  with lo show ?thesis by simp
qed

lemma ilog10_eqI:
  assumes "0 < q" "10 powi e \<le> q" "q < 10 powi (e + 1)"
  shows "ilog10 q = e"
proof -
  from ilog10_bounds[OF assms(1)]
  have b: "10 powi (ilog10 q) \<le> q" "q < 10 powi (ilog10 q + 1)" by simp_all
  have "(10::rat) powi e < 10 powi (ilog10 q + 1)" using assms(2) b(2) by simp
  hence 1: "e < ilog10 q + 1"
    by (metis linorder_not_less one_le_numeral power_int_increasing)
  have "(10::rat) powi (ilog10 q) < 10 powi (e + 1)" using assms(3) b(1) by simp
  hence 2: "ilog10 q < e + 1"
    by (metis linorder_not_less one_le_numeral power_int_increasing)
  from 1 2 show ?thesis by simp
qed


lemma round_even_of_int: "round_even (of_int n) = n"
  by (simp add: round_even_def)

lemma round_even_close: "\<bar>of_int (round_even y) - y\<bar> \<le> 1 / 2"
proof -
  define f where "f = \<lfloor>y\<rfloor>"
  have "of_int f \<le> y" "y < of_int f + 1" unfolding f_def by linarith+
  thus ?thesis unfolding round_even_def Let_def f_def[symmetric] by (auto simp: abs_if)
qed

lemma to_double_minus: "to_double (- q) = js_neg (to_double q)"
  by (simp add: to_double_def Let_def)

lemma to_double_exact_pos:
  assumes "0 < m" "m < 2 ^ 53" "- 1074 \<le> e" "e \<le> 971"
  shows "to_double (of_int m * 2 powi e) = Fin (of_int m * 2 powi e)"
proof -
  define q :: rat where "q = of_int m * 2 powi e"
  have q0: "0 < q" using assms(1) by (simp add: q_def)
  have "m + 1 \<le> 2 ^ 53" using assms(2) by simp
  hence "(of_int (m + 1) :: rat) \<le> of_int (2 ^ 53)" by (simp only: of_int_le_iff)
  hence m: "(of_int m :: rat) < 2 ^ 53" by simp
  have "q < 2 ^ 53 * 2 powi e" using m by (simp add: q_def)
  also have "\<dots> = 2 powi (53 + e)" by (simp add: power_int_add)
  finally have qu: "q < 2 powi (53 + e)" .
  from ilog2_bounds[OF q0] have "2 powi (ilog2 q) \<le> q" by simp
  with qu have "(2::rat) powi (ilog2 q) < 2 powi (53 + e)" by simp
  hence il: "ilog2 q < 53 + e"
    by (metis linorder_not_less one_le_numeral power_int_increasing)
  define p where "p = max (ilog2 q - 52) (- 1074)"
  have pe: "p \<le> e" using il assms(3) by (simp add: p_def)
  have "q / 2 powi p = of_int m * 2 powi (e - p)"
    by (simp add: q_def power_int_diff)
  also have "\<dots> = of_int (m * 2 ^ nat (e - p))"
    using pe by (simp add: power_int_nonneg_exp)
  finally have y: "q / 2 powi p = of_int (m * 2 ^ nat (e - p))" .
  have v: "of_int (round_even (q / 2 powi p)) * 2 powi p = q"
    unfolding y round_even_of_int unfolding y[symmetric] by simp
  have "(2::rat) powi (53 + e) \<le> 2 powi 1024"
    by (rule power_int_increasing) (use assms(4) in simp_all)
  with qu have "q < 2 ^ 1024" by simp
  thus ?thesis
    using q0 v unfolding q_def[symmetric]
    by (simp add: to_double_def Let_def p_def[symmetric])
qed

lemma to_double_exact:
  assumes "\<bar>m\<bar> < 2 ^ 53" "- 1074 \<le> e" "e \<le> 971"
  shows "to_double (of_int m * 2 powi e) = Fin (of_int m * 2 powi e)"
proof -
  consider "m = 0" | "0 < m" | "m < 0" by linarith
  thus ?thesis
  proof cases
    case 1 thus ?thesis by (simp add: to_double_def)
  next
    case 2 thus ?thesis using assms by (intro to_double_exact_pos) simp_all
  next
    case 3
    hence "to_double (of_int (- m) * 2 powi e) = Fin (of_int (- m) * 2 powi e)"
      using assms by (intro to_double_exact_pos) simp_all
    hence "to_double (- (of_int m * 2 powi e)) = Fin (- (of_int m * 2 powi e))" by simp
    thus ?thesis unfolding to_double_minus by (cases "to_double (of_int m * 2 powi e)") simp_all
  qed
qed

lemma to_double_of_int: "\<bar>n\<bar> < 2 ^ 53 \<Longrightarrow> to_double (of_int n) = Fin (of_int n)"
  using to_double_exact[of n 0] by simp

lemma to_double_numeral:
  "(numeral k :: int) < 2 ^ 53 \<Longrightarrow> to_double (numeral k) = Fin (numeral k)"
  "(numeral k :: int) < 2 ^ 53 \<Longrightarrow> to_double (- numeral k) = Fin (- numeral k)"
  "to_double 0 = Fin 0"
  "to_double 1 = Fin 1"
  using to_double_of_int[of "numeral k"] to_double_of_int[of "- numeral k"] to_double_of_int[of 1]
  by (simp_all add: to_double_def)

lemma floor_rat_numeral:
  "\<lfloor>numeral a / numeral b :: rat\<rfloor> = numeral a div numeral b"
  "\<lfloor>1 / numeral b :: rat\<rfloor> = 1 div numeral b"
  using floor_divide_of_int_eq[of "numeral a" "numeral b", where ?'a = rat]
    floor_divide_of_int_eq[of 1 "numeral b", where ?'a = rat]
  by simp_all

lemma round_even_le:
  assumes "y \<le> of_int N"
  shows "round_even y \<le> N"
proof -
  define f where "f = \<lfloor>y\<rfloor>"
  have f: "of_int f \<le> y" "y < of_int f + 1" unfolding f_def by linarith+
  show ?thesis
  proof (cases "y = of_int N")
    case True thus ?thesis by (simp add: round_even_of_int)
  next
    case False
    hence "y < of_int N" using assms by simp
    hence "f < N" unfolding f_def by (simp add: floor_less_iff)
    moreover have "round_even y \<le> f + 1"
      unfolding round_even_def Let_def f_def[symmetric] by simp
    ultimately show ?thesis by simp
  qed
qed

lemma to_double_normal:
  assumes "0 < q" "2 powi e \<le> q" "q < 2 powi (e + 1)" "- 1022 \<le> e" "e \<le> 1022"
    and "r = round_even (q / 2 powi (e - 52))"
  shows "to_double q = Fin (of_int r * 2 powi (e - 52))"
proof -
  have il: "ilog2 q = e" by (rule ilog2_eqI[OF assms(1-3)])
  have p: "max (e - 52) (- 1074) = e - 52" using assms(4) by simp
  have "q / 2 powi (e - 52) \<le> 2 powi (e + 1) / 2 powi (e - 52)"
    using assms(3) by (simp add: divide_right_mono)
  also have "\<dots> = of_int (2 ^ 53)"
    by (simp flip: power_int_diff)
  finally have "r \<le> 2 ^ 53" unfolding assms(6) by (rule round_even_le)
  hence "(of_int r :: rat) \<le> of_int (2 ^ 53)" by (simp only: of_int_le_iff)
  hence "of_int r * 2 powi (e - 52) \<le> (2 ^ 53 :: rat) * 2 powi (e - 52)"
    by (simp add: mult_right_mono)
  also have "\<dots> = 2 powi (e + 1)"
    using power_int_add[of "2::rat" 53 "e - 52"] by (simp add: add.commute)
  also have "\<dots> \<le> 2 powi 1023" by (rule power_int_increasing) (use assms(5) in simp_all)
  also have "\<dots> < 2 ^ 1024" by simp
  finally have "\<not> 2 ^ 1024 \<le> rat_of_int r * 2 powi (e - 52)" by simp
  thus ?thesis
    using assms(1) by (simp add: to_double_def Let_def il p assms(6)[symmetric])
qed

lemma to_double_close_normal:
  assumes "to_double q = Fin x" "1 / 2 ^ 64 \<le> \<bar>q\<bar>"
  shows "\<bar>x - q\<bar> \<le> \<bar>q\<bar> / 2 ^ 53"
proof -
  have q0: "q \<noteq> 0" using assms(2) by auto
  define p where "p = max (ilog2 \<bar>q\<bar> - 52) (- 1074)"
  define u :: rat where "u = 2 powi p"
  define r where "r = round_even (\<bar>q\<bar> / u)"
  have u0: "0 < u" by (simp add: u_def)
  have x: "x = (if 0 < q then of_int r * u else - (of_int r * u))"
    using assms(1) q0
    unfolding to_double_def Let_def p_def[symmetric] u_def[symmetric] r_def[symmetric]
    by (auto split: if_splits)
  have "\<bar>of_int r - \<bar>q\<bar> / u\<bar> \<le> 1 / 2" unfolding r_def by (rule round_even_close)
  hence "\<bar>of_int r - \<bar>q\<bar> / u\<bar> * u \<le> 1 / 2 * u" using u0 by (simp only: mult_le_cancel_right_pos)
  moreover have "\<bar>of_int r - \<bar>q\<bar> / u\<bar> * u = \<bar>(of_int r - \<bar>q\<bar> / u) * u\<bar>"
    using u0 by (simp add: abs_mult)
  moreover have "(of_int r - \<bar>q\<bar> / u) * u = of_int r * u - \<bar>q\<bar>"
    using u0 by (simp add: left_diff_distrib)
  ultimately have d: "\<bar>of_int r * u - \<bar>q\<bar>\<bar> \<le> u / 2" by simp
  have xq: "\<bar>x - q\<bar> = \<bar>of_int r * u - \<bar>q\<bar>\<bar>"
  proof (cases "0 < q")
    case True thus ?thesis by (simp add: x)
  next
    case False
    hence "x - q = - (of_int r * u - \<bar>q\<bar>)" by (simp add: x)
    thus ?thesis by (simp only: abs_minus_cancel)
  qed
  from ilog2_bounds[of "\<bar>q\<bar>"] q0
  have b: "2 powi (ilog2 \<bar>q\<bar>) \<le> \<bar>q\<bar>" "\<bar>q\<bar> < 2 powi (ilog2 \<bar>q\<bar> + 1)" by simp_all
  have "(2::rat) powi (- 64) \<le> \<bar>q\<bar>" using assms(2) by (simp add: power_int_minus_divide)
  with b(2) have "(2::rat) powi (- 64) < 2 powi (ilog2 \<bar>q\<bar> + 1)" by simp
  hence "- 64 < ilog2 \<bar>q\<bar> + 1"
    by (metis linorder_not_less one_le_numeral power_int_increasing)
  hence "u = 2 powi (ilog2 \<bar>q\<bar>) / 2 ^ 52" by (simp add: u_def p_def power_int_diff)
  also have "\<dots> \<le> \<bar>q\<bar> / 2 ^ 52" using b(1) by (simp add: divide_right_mono)
  finally have "u / 2 \<le> \<bar>q\<bar> / 2 ^ 53" by simp
  with d xq show ?thesis by simp
qed

lemma to_double_neq:
  "1 / 2 ^ 64 \<le> \<bar>q\<bar> \<Longrightarrow> \<bar>q\<bar> / 2 ^ 53 < \<bar>x - q\<bar> \<Longrightarrow> (to_double q = Fin x) = False"
  using to_double_close_normal[of q x] by auto

lemma shortest_numeral:
  "shortest (numeral f) k n x =
     (let u = 10 powi (n - int k);
          s = \<lfloor>x / u\<rfloor>;
          lo = of_int s * u;
          hi = lo + u;
          okl = (to_double lo = Fin x);
          okh = (to_double hi = Fin x)
      in if okl \<and> okh then
           (if x - lo < hi - x then lo else if hi - x < x - lo then hi
            else if even s then lo else hi)
         else if okl then lo
         else if okh then hi
         else shortest (pred_numeral f) (Suc k) n x)"
  by (simp add: numeral_eq_Suc)

lemma to_decimal_pos:
  assumes "0 < x" "10 powi e \<le> x" "x < 10 powi (e + 1)"
  shows "to_decimal x = shortest 17 1 (e + 1) x"
  using assms ilog10_eqI[OF assms] by (simp add: to_decimal_def)

lemma to_decimal_minus: "to_decimal (- x) = - to_decimal x"
  by (simp add: to_decimal_def)

lemma shortest_nonneg: "0 \<le> x \<Longrightarrow> 0 \<le> shortest fuel k n x"
proof (induction fuel arbitrary: k)
  case 0
  then show ?case by simp
next
  case (Suc fuel)
  define u :: rat where "u = 10 powi (n - int k)"
  have u: "0 < u" by (simp add: u_def)
  have "0 \<le> x / u" using Suc.prems u by simp
  then have "0 \<le> \<lfloor>x / u\<rfloor>" by simp
  then have lo: "0 \<le> of_int \<lfloor>x / u\<rfloor> * u" using u by simp
  then have hi: "0 \<le> of_int \<lfloor>x / u\<rfloor> * u + u" using u by simp
  from Suc.IH[OF Suc.prems, of "Suc k"] lo hi show ?case
    by (simp add: Let_def u_def)
qed

lemma to_decimal_nonneg: "0 \<le> x \<Longrightarrow> 0 \<le> to_decimal x"
  by (simp add: to_decimal_def shortest_nonneg)

text \<open>Facts for the evaluation of examples: the double of a literal, and the decimal text of
  a double.\<close>

lemmas decimal_eval = shortest_numeral Let_def floor_rat_numeral to_double_neq to_double_numeral

lemma to_double_hundredth:
  "to_double (1 / 100) = Fin (5764607523034235 / 576460752303423488)"
  by (rule to_double_normal[of _ "- 7" 5764607523034235, simplified])
     (simp_all add: round_even_def Let_def floor_rat_numeral)

lemma to_double_dyadic:
  "to_double (1 / 8) = Fin (1 / 8)"
  "to_double (1 / 64) = Fin (1 / 64)"
  "to_double (1 / 128) = Fin (1 / 128)"
  "to_double (3 / 256) = Fin (3 / 256)"
  "to_double (1 / 256) = Fin (1 / 256)"
  using to_double_exact[of 1 "- 3"] to_double_exact[of 1 "- 6"] to_double_exact[of 1 "- 7"]
    to_double_exact[of 3 "- 8"] to_double_exact[of 1 "- 8"]
  by simp_all

lemma to_decimal_0: "to_decimal 0 = 0"
  by (simp add: to_decimal_def)

lemma to_decimal_examples:
  "to_decimal 1500 = 1500"
  "to_decimal 1000 = 1000"
  "to_decimal 900 = 900"
  "to_decimal 5 = 5"
  "to_decimal (1 / 8) = 1 / 8"
  "to_decimal (1 / 64) = 1 / 64"
  "to_decimal (1 / 256) = 1 / 256"
  using to_double_dyadic
  by (simp_all add: to_decimal_pos[of _ 3] to_decimal_pos[of _ 2] to_decimal_pos[of _ 0]
        to_decimal_pos[of _ "- 1"] to_decimal_pos[of _ "- 2"] to_decimal_pos[of _ "- 3"]
        decimal_eval)


subsection \<open>The transaction of createJournalEntry\<close>

lemma client_query_tx: "client_query f c stmt cl = (r, cl') \<Longrightarrow> tx cl' = tx cl"
  by (auto simp: client_query_def split: if_splits sum.splits prod.splits)

lemma client_query_Inr:
  "client_query f c stmt cl = (Inr r, cl') \<Longrightarrow>
     \<not> f c \<and> (\<exists>d'. stmt (store cl) = (Inr r, d') \<and> cl' = cl\<lparr>store := d'\<rparr>)"
  by (auto simp: client_query_def split: if_splits sum.splits prod.splits)

lemma amount_error: "amount pf k line = Inl e \<Longrightarrow> e = TypeError"
  by (cases "js_get line k")
     (auto simp: amount_def Number_or_0_def split: if_splits sum.splits option.splits)

lemma insert_journal_entry_line_Inr:
  assumes "insert_journal_entry_line pf je a dn cn ds now now d = (Inr u, d')"
  shows "\<exists>row. journal_entry_lines d' = journal_entry_lines d @ [row] \<and>
           journal_entries d' = journal_entries d \<and>
           chart_of_accounts d' = chart_of_accounts d \<and>
           jel_journalEntryId row = je \<and> int4_param pf a = Inr (Some (jel_accountId row)) \<and>
           numeric_15_2 dn = Inr (jel_debit row) \<and> numeric_15_2 cn = Inr (jel_credit row) \<and>
           jel_description row = text_param pf ds \<and>
           jel_createdAt row = now \<and> jel_updatedAt row = now \<and>
           jel_accountId row \<in> coa_id ` set (chart_of_accounts d)"
  using assms
  by (auto simp: insert_journal_entry_line_def Let_def split: sum.splits if_splits option.splits)

lemma insert_lines_tx: "insert_lines pf f now je i ls cl = (r, cl') \<Longrightarrow> tx cl' = tx cl"
proof (induction ls arbitrary: i cl)
  case Nil
  then show ?case by simp
next
  case (Cons l ls)
  then show ?case
    by (auto split: prod.splits sum.splits dest: client_query_tx)
qed

lemma insert_lines_Inr:
  "insert_lines pf f now je i ls cl = (Inr u, cl') \<Longrightarrow>
     chart_of_accounts (store cl') = chart_of_accounts (store cl) \<and>
     journal_entries (store cl') = journal_entries (store cl) \<and>
     (\<exists>rows. journal_entry_lines (store cl') = journal_entry_lines (store cl) @ rows \<and>
             list_all2 (stored_as pf je now) ls rows \<and>
             (\<forall>row\<in>set rows. jel_accountId row \<in> coa_id ` set (chart_of_accounts (store cl)))) \<and>
     (\<forall>k<length ls. \<not> f (InsertLine (i + k)))"
proof (induction ls arbitrary: i cl)
  case Nil
  then show ?case by simp
next
  case (Cons l ls)
  from Cons.prems obtain deb cre cl1 where
    deb: "amount pf ''debit'' l = Inr deb" and cre: "amount pf ''credit'' l = Inr cre" and
    q: "client_query f (InsertLine i)
          (insert_journal_entry_line pf je (js_get l ''accountId'') deb cre
             (or_null (js_get l ''description'')) now now) cl = (Inr (), cl1)"
    and rest: "insert_lines pf f now je (Suc i) ls cl1 = (Inr u, cl')"
    by (auto split: prod.splits sum.splits)
  from client_query_Inr[OF q] obtain d1 where nf: "\<not> f (InsertLine i)"
    and st: "insert_journal_entry_line pf je (js_get l ''accountId'') deb cre
             (or_null (js_get l ''description'')) now now (store cl) = (Inr (), d1)"
    and cl1: "cl1 = cl\<lparr>store := d1\<rparr>" by blast
  from insert_journal_entry_line_Inr[OF st] obtain row where
    row: "journal_entry_lines d1 = journal_entry_lines (store cl) @ [row]"
      "journal_entries d1 = journal_entries (store cl)"
      "chart_of_accounts d1 = chart_of_accounts (store cl)"
      "jel_accountId row \<in> coa_id ` set (chart_of_accounts (store cl))"
    and sa: "jel_journalEntryId row = je"
      "int4_param pf (js_get l ''accountId'') = Inr (Some (jel_accountId row))"
      "numeric_15_2 deb = Inr (jel_debit row)" "numeric_15_2 cre = Inr (jel_credit row)"
      "jel_description row = text_param pf (or_null (js_get l ''description''))"
      "jel_createdAt row = now" "jel_updatedAt row = now"
    by blast
  have stored: "stored_as pf je now l row"
    using sa deb cre by (simp add: stored_as_def)
  from Cons.IH[OF rest] obtain rows where
    ih: "chart_of_accounts (store cl') = chart_of_accounts (store cl1)"
      "journal_entries (store cl') = journal_entries (store cl1)"
      "journal_entry_lines (store cl') = journal_entry_lines (store cl1) @ rows"
      "list_all2 (stored_as pf je now) ls rows"
      "\<forall>k<length ls. \<not> f (InsertLine (Suc i + k))"
      "\<forall>row\<in>set rows. jel_accountId row \<in> coa_id ` set (chart_of_accounts (store cl1))" by blast
  have "journal_entry_lines (store cl') = journal_entry_lines (store cl) @ (row # rows)"
    using ih(3) row(1) cl1 by simp
  moreover have "list_all2 (stored_as pf je now) (l # ls) (row # rows)"
    using stored ih(4) by simp
  moreover have "\<forall>k<length (l # ls). \<not> f (InsertLine (i + k))"
  proof (intro allI impI)
    fix k assume "k < length (l # ls)"
    then show "\<not> f (InsertLine (i + k))"
      using nf ih(5) by (cases k) auto
  qed
  moreover have "\<forall>r\<in>set (row # rows). jel_accountId r \<in> coa_id ` set (chart_of_accounts (store cl))"
    using row(4) ih(6) row(3) cl1 by simp
  ultimately show ?case using ih(1,2) row(2,3) cl1 by auto
qed

lemma insert_journal_entry_Inr:
  assumes "insert_journal_entry pf ed de rn cb now now d = (Inr i, d')"
  shows "\<exists>header. journal_entries d' = journal_entries d @ [header] \<and> je_id header = i \<and>
           journal_entry_lines d' = journal_entry_lines d \<and>
           chart_of_accounts d' = chart_of_accounts d \<and>
           Some (je_description header) = text_param pf de \<and>
           je_createdAt header = now \<and> je_updatedAt header = now"
  using assms
  by (auto simp: insert_journal_entry_def Let_def split: sum.splits if_splits option.splits)

lemma commit_tx_Inl: "commit_tx f cl = (Inl e, cl') \<Longrightarrow> cl' = cl"
  by (auto simp: commit_tx_def split: if_splits)

lemma commit_tx_Inr: "commit_tx f cl = (Inr u, cl') \<Longrightarrow> cl' = cl\<lparr>tx := None\<rparr> \<and> \<not> f Commit"
  by (auto simp: commit_tx_def split: if_splits)

lemma select_entry_query:
  "client_query f SelectEntry (select_journal_entry i) cl = (r, cl') \<Longrightarrow>
     cl' = cl \<and> (if f SelectEntry then r = Inl (StorageError ConnectionFailure) else \<not> isl r)"
  by (auto simp: client_query_def select_journal_entry_def split: if_splits)

lemma select_lines_query:
  "client_query f SelectLines (select_lines_of_entry i) cl = (r, cl') \<Longrightarrow>
     cl' = cl \<and> (if f SelectLines then r = Inl (StorageError ConnectionFailure) else \<not> isl r)"
  by (auto simp: client_query_def select_lines_of_entry_def split: if_splits)

lemma stored_as_not_rejected:
  assumes "list_all2 (stored_as pf je now) ls rows"
    and "\<forall>row\<in>set rows. jel_accountId row \<in> coa_id ` set coa"
    and "k < length ls"
  shows "\<not> line_rejected pf coa (ls ! k)"
proof -
  from assms(1,3) have s: "stored_as pf je now (ls ! k) (rows ! k)" and kl: "k < length rows"
    by (auto simp: list_all2_conv_all_nth)
  from kl assms(2) have "jel_accountId (rows ! k) \<in> coa_id ` set coa" by simp
  with s show ?thesis
    by (auto simp: line_rejected_def stored_as_def split: sum.splits)
qed

lemma try_block_cases:
  assumes "try_block pf f now ed de rn cb lines cl = (res, cl')"
  shows "(isl res \<and> tx cl' = tx cl) \<or>
         (tx cl' = None \<and> written pf f now de lines (store cl) (store cl') \<and>
          (if f SelectEntry \<or> f SelectLines then res = Inl (StorageError ConnectionFailure)
           else \<not> isl res))"
proof (cases "client_query f InsertEntry
             (insert_journal_entry pf ed de (or_null rn) (or_null cb) now now) cl")
  case (Pair r1 cl1)
  show ?thesis
  proof (cases r1)
    case (Inl e)
    with Pair assms show ?thesis
      by (auto simp: try_block_def dest: client_query_tx)
  next
    case (Inr je)
    note q1 = Pair[unfolded Inr]
    from client_query_Inr[OF q1] obtain d1 where nf1: "\<not> f InsertEntry"
      and st1: "insert_journal_entry pf ed de (or_null rn) (or_null cb) now now (store cl)
                  = (Inr je, d1)"
      and cl1: "cl1 = cl\<lparr>store := d1\<rparr>" by blast
    from insert_journal_entry_Inr[OF st1] obtain header where
      h: "journal_entries d1 = journal_entries (store cl) @ [header]" "je_id header = je"
         "journal_entry_lines d1 = journal_entry_lines (store cl)"
         "chart_of_accounts d1 = chart_of_accounts (store cl)"
         "Some (je_description header) = text_param pf de"
         "je_createdAt header = now" "je_updatedAt header = now" by blast
    show ?thesis
    proof (cases "je = 0")
      case True
      with q1 assms cl1 show ?thesis by (auto simp: try_block_def)
    next
      case nz: False
      show ?thesis
      proof (cases "isArray lines")
        case False
        with q1 assms cl1 nz show ?thesis
          by (cases lines) (auto simp: try_block_def)
      next
        case True
        then obtain ls where Some: "lines = JArray ls" by (cases lines) auto
        obtain r2 cl2 where il: "insert_lines pf f now je 0 ls cl1 = (r2, cl2)" by fastforce
        show ?thesis
        proof (cases r2)
          case (Inl e)
          with il q1 assms cl1 nz Some insert_lines_tx[OF il] show ?thesis
            by (auto simp: try_block_def)
        next
          case (Inr u)
          from insert_lines_Inr[OF il[unfolded Inr]] obtain rows where
            l: "chart_of_accounts (store cl2) = chart_of_accounts (store cl1)"
               "journal_entries (store cl2) = journal_entries (store cl1)"
               "journal_entry_lines (store cl2) = journal_entry_lines (store cl1) @ rows"
               "list_all2 (stored_as pf je now) ls rows"
               "\<forall>row\<in>set rows. jel_accountId row \<in> coa_id ` set (chart_of_accounts (store cl1))"
               "\<forall>k<length ls. \<not> f (InsertLine (0 + k))" by blast
          obtain r3 cl3 where cm: "commit_tx f cl2 = (r3, cl3)" by fastforce
          show ?thesis
          proof (cases r3)
            case (Inl e)
            with cm il \<open>r2 = Inr u\<close> q1 assms cl1 nz Some insert_lines_tx[OF il]
              commit_tx_Inl[OF cm[unfolded Inl]] show ?thesis
              by (auto simp: try_block_def)
          next
            case r3: (Inr u3)
            from commit_tx_Inr[OF cm[unfolded r3]] have cl3: "cl3 = cl2\<lparr>tx := None\<rparr>"
              and nfc: "\<not> f Commit" by auto
            obtain r4 cl4 where se: "client_query f SelectEntry (select_journal_entry je) cl3 = (r4, cl4)"
              by fastforce
            obtain r5 cl5 where sl: "client_query f SelectLines (select_lines_of_entry je) cl4 = (r5, cl5)"
              by fastforce
            from select_entry_query[OF se] have cl4: "cl4 = cl3"
              and r4: "if f SelectEntry then r4 = Inl (StorageError ConnectionFailure) else \<not> isl r4"
              by auto
            from select_lines_query[OF sl] have cl5: "cl5 = cl3"
              and r5: "if f SelectLines then r5 = Inl (StorageError ConnectionFailure) else \<not> isl r5"
              using cl4 by auto
            have ea: "entry_added pf now de lines (store cl) (store cl3)"
              unfolding entry_added_def
              using Some h l cl1 cl3 by (intro exI[of _ header] exI[of _ rows] exI[of _ ls]) simp
            have nr: "\<forall>k<length ls. \<not> line_rejected pf (chart_of_accounts (store cl)) (ls ! k)"
              using stored_as_not_rejected[OF l(4)] l(5) h(4) cl1 by simp
            have w: "written pf f now de lines (store cl) (store cl3)"
              unfolding written_def using ea nf1 nfc l(6) nr Some by simp
            have res: "(res, cl') =
                 (case r4 of Inl e \<Rightarrow> (Inl e, cl3)
                  | Inr rows \<Rightarrow>
                      (case r5 of Inl e \<Rightarrow> (Inl e, cl3)
                       | Inr linesData \<Rightarrow>
                           (Inr \<lparr>entry = (case rows of [] \<Rightarrow> None | r # _ \<Rightarrow> Some r),
                                 created_lines = linesData\<rparr>, cl3)))"
              using assms q1 nz Some il \<open>r2 = Inr u\<close> cm r3 se sl cl4 cl5
              by (auto simp: try_block_def split: sum.splits)
            have "cl' = cl3" using res by (auto split: sum.splits)
            moreover have "if f SelectEntry \<or> f SelectLines
                           then res = Inl (StorageError ConnectionFailure) else \<not> isl res"
              using res r4 r5 by (auto split: sum.splits if_splits)
            ultimately show ?thesis using w cl3 by simp
          qed
        qed
      qed
    qed
  qed
qed

lemma abort_open: "tx cl = Some s \<Longrightarrow> same_rows s (store (abort cl))"
  by (simp add: abort_def restore_def same_rows_def)

lemma abort_closed: "tx cl = None \<Longrightarrow> abort cl = cl"
  by (simp add: abort_def)

lemma rollback_tx_end: "rollback_tx f cl = (r, cl') \<Longrightarrow> client_end cl' = client_end cl"
  by (cases "tx cl") (auto simp: rollback_tx_def client_end_def abort_def split: if_splits)

lemma rollback_tx_error:
  "rollback_tx f cl = (Inl e, cl') \<Longrightarrow> e = StorageError ConnectionFailure"
  by (auto simp: rollback_tx_def split: if_splits)

lemma operation_cases:
  assumes "operation pf f now ed de rn cb lines d = (res, d')"
  shows "(isl res \<and> same_rows d d') \<or>
         (written pf f now de lines d d' \<and>
          (if f SelectEntry \<or> f SelectLines then res = Inl (StorageError ConnectionFailure)
           else \<not> isl res))"
proof (cases "f Connect \<or> f Begin")
  case True
  with assms have "isl res \<and> d' = d"
    by (auto simp: operation_def begin_tx_def client_end_def abort_def split: if_splits)
  then show ?thesis by (simp add: same_rows_def)
next
  case False
  define cl1 where "cl1 = \<lparr>store = d, tx = Some d\<rparr>"
  obtain r2 cl2 where tb: "try_block pf f now ed de rn cb lines cl1 = (r2, cl2)" by fastforce
  obtain r3 cl3 where rb: "rollback_tx f cl2 = (r3, cl3)" by fastforce
  have op: "(res, d') =
      (case r2 of Inr r \<Rightarrow> (Inr r, client_end cl2)
       | Inl e \<Rightarrow> (case r3 of Inl e' \<Rightarrow> (Inl e', client_end cl2)
                   | Inr _ \<Rightarrow> (Inl e, client_end cl2)))"
    using assms False tb rb rollback_tx_end[OF rb]
    by (auto simp: operation_def begin_tx_def cl1_def split: sum.splits)
  from try_block_cases[OF tb] consider
      (failed) "isl r2" "tx cl2 = Some d"
    | (committed) "tx cl2 = None" "written pf f now de lines d (store cl2)"
        "if f SelectEntry \<or> f SelectLines then r2 = Inl (StorageError ConnectionFailure)
         else \<not> isl r2"
    by (auto simp: cl1_def)
  then show ?thesis
  proof cases
    case failed
    from abort_open[OF failed(2)] have "same_rows d (client_end cl2)"
      by (simp add: client_end_def)
    with op failed(1) show ?thesis by (auto split: sum.splits)
  next
    case committed
    have e: "client_end cl2 = store cl2"
      using committed(1) by (simp add: client_end_def abort_closed)
    have "r3 = Inl (StorageError ConnectionFailure) \<or> \<not> isl r3"
      using rb by (cases r3) (auto dest: rollback_tx_error)
    with op e committed(2,3) show ?thesis
      by (auto split: sum.splits if_splits)
  qed
qed

lemma createJournalEntry_valid:
  assumes "config_valid cfg" and "payload_valid pf p"
  shows "createJournalEntry pf cfg f now d p =
           operation pf f now (js_get p ''entryDate'') (js_get p ''description'')
             (js_get p ''referenceNumber'') (js_get p ''createdBy'') (js_get p ''lines'') d"
  using assms by (simp add: createJournalEntry_def config_valid_def payload_valid_def Let_def)

lemma createJournalEntry_not_valid:
  assumes "createJournalEntry pf cfg f now d p = (res, d')"
    and "\<not> (config_valid cfg \<and> payload_valid pf p)"
  shows "isl res \<and> d' = d"
  using assms
  by (auto simp: createJournalEntry_def config_valid_def payload_valid_def Let_def
           split: option.splits if_splits sum.splits)

lemma createJournalEntry_cases:
  assumes "createJournalEntry pf cfg f now d p = (res, d')"
  shows "(isl res \<and> same_rows d d') \<or>
         (config_valid cfg \<and> payload_valid pf p \<and>
          written pf f now (js_get p ''description'') (js_get p ''lines'') d d' \<and>
          (if f SelectEntry \<or> f SelectLines then res = Inl (StorageError ConnectionFailure)
           else \<not> isl res))"
proof (cases "config_valid cfg \<and> payload_valid pf p")
  case True
  with assms createJournalEntry_valid[of cfg pf p f now d]
  have "operation pf f now (js_get p ''entryDate'') (js_get p ''description'')
          (js_get p ''referenceNumber'') (js_get p ''createdBy'') (js_get p ''lines'') d
        = (res, d')"
    by simp
  from operation_cases[OF this] True show ?thesis by blast
next
  case False
  from createJournalEntry_not_valid[OF assms False] show ?thesis by (simp add: same_rows_def)
qed

lemma length_gt_0_array: "length_gt_0 pf (JArray xs) = Inr (xs \<noteq> [])"
  by (simp add: length_gt_0_def)



subsection \<open>More on the transaction\<close>

lemma client_query_error:
  "client_query f c stmt cl = (Inl e, cl') \<Longrightarrow> \<exists>pe. e = StorageError pe"
  by (auto simp: client_query_def split: if_splits sum.splits prod.splits)

lemma insert_lines_error:
  "insert_lines pf f now je i ls cl = (Inl e, cl') \<Longrightarrow> (\<exists>pe. e = StorageError pe) \<or> e = TypeError"
proof (induction ls arbitrary: i cl)
  case Nil
  then show ?case by simp
next
  case (Cons l ls)
  then show ?case
    by (auto split: prod.splits sum.splits dest: client_query_error amount_error)
qed

lemma try_block_error:
  assumes "try_block pf f now ed de rn cb lines cl = (Inl e, cl')"
  shows "e \<noteq> InvalidJournalEntry issues"
  using assms unfolding try_block_def commit_tx_def
  by (auto split: prod.splits sum.splits if_splits jsvalue.splits
           dest!: client_query_error insert_lines_error)

lemma operation_error:
  assumes "operation pf f now ed de rn cb lines d = (Inl e, d')"
  shows "e \<noteq> InvalidJournalEntry issues"
  using assms unfolding operation_def begin_tx_def
  by (auto split: prod.splits sum.splits if_splits
           dest!: try_block_error rollback_tx_error)

lemma reduce_sum_error:
  "reduce_sum (amount pf k) acc ls = Inl e \<Longrightarrow> e = TypeError"
  by (induction ls arbitrary: acc) (auto split: sum.splits dest: amount_error)

lemma ToNumber_error: "ToNumber pf v = Inl e \<Longrightarrow> e = TypeError"
  by (cases v) (auto split: if_splits option.splits)

lemma journal_entry_issues_error:
  "journal_entry_issues pf ed de lines = Inl e \<Longrightarrow> e = TypeError"
  by (auto simp: journal_entry_issues_def Let_def length_gt_0_def totalDebits_def
        totalCredits_def
      split: if_splits sum.splits bool.splits jsvalue.splits
      dest: reduce_sum_error ToNumber_error)

lemma createJournalEntry_validation_error:
  assumes "createJournalEntry pf cfg f now d p = (Inl (InvalidJournalEntry issues), d')"
  shows "journal_entry_issues pf (js_get p ''entryDate'') (js_get p ''description'')
           (js_get p ''lines'') = Inr issues \<and> issues \<noteq> [] \<and> d' = d"
  using assms
  by (auto simp: createJournalEntry_def validateAccountingDatabaseConfig_def
        validateAccountingQueryConfig_def Let_def
      split: option.splits if_splits sum.splits
      dest: operation_error journal_entry_issues_error)

lemma insert_lines_cong:
  "(\<And>k. g (InsertLine k) = f (InsertLine k)) \<Longrightarrow>
     insert_lines pf g now je i ls cl = insert_lines pf f now je i ls cl"
proof (induction ls arbitrary: i cl)
  case Nil
  then show ?case by simp
next
  case (Cons l ls)
  then show ?case
    by (simp add: client_query_def split: prod.splits sum.splits)
qed

lemma try_block_readback_fault:
  assumes ok: "try_block pf f now ed de rn cb lines cl = (Inr r, cl')"
    and g: "g = f(SelectEntry := True) \<or> g = f(SelectLines := True)"
  shows "try_block pf g now ed de rn cb lines cl = (Inl (StorageError ConnectionFailure), cl')"
proof -
  have il: "\<And>je ls c. insert_lines pf g now je 0 ls c = insert_lines pf f now je 0 ls c"
    using g by (intro insert_lines_cong) auto
  have q: "\<And>stmt c. client_query g InsertEntry stmt c = client_query f InsertEntry stmt c"
    using g by (auto simp: client_query_def)
  have cm: "\<And>c. commit_tx g c = commit_tx f c"
    using g by (auto simp: commit_tx_def)
  have sel: "g SelectEntry \<or> (g SelectEntry = f SelectEntry \<and> g SelectLines)"
    using g by auto
  show ?thesis
    using ok sel unfolding try_block_def il q cm
    by (auto simp: client_query_def select_journal_entry_def select_lines_of_entry_def
             split: prod.splits sum.splits if_splits jsvalue.splits)
qed

lemma operation_readback_fault:
  assumes ok: "operation pf f now ed de rn cb lines d = (Inr r, d')"
    and g: "g = f(SelectEntry := True) \<or> g = f(SelectLines := True)"
  shows "operation pf g now ed de rn cb lines d = (Inl (StorageError ConnectionFailure), d')"
proof -
  define cl1 where "cl1 = \<lparr>store = d, tx = Some d\<rparr>"
  have nf: "\<not> f Connect" "\<not> f Begin"
    using ok by (auto simp: operation_def begin_tx_def split: if_splits)
  then have ng: "\<not> g Connect" "\<not> g Begin" using g by auto
  obtain r2 cl2 where tb: "try_block pf f now ed de rn cb lines cl1 = (r2, cl2)" by fastforce
  have r2: "r2 = Inr r" and d': "d' = client_end cl2"
    using ok nf tb
    by (auto simp: operation_def begin_tx_def cl1_def split: sum.splits prod.splits)
  from try_block_readback_fault[OF tb[unfolded r2] g]
  have tg: "try_block pf g now ed de rn cb lines cl1 = (Inl (StorageError ConnectionFailure), cl2)" .
  obtain r3 cl3 where rb: "rollback_tx g cl2 = (r3, cl3)" by fastforce
  have "r3 = Inl (StorageError ConnectionFailure) \<or> \<not> isl r3"
    using rb by (cases r3) (auto dest: rollback_tx_error)
  then show ?thesis
    using ng tg rb rollback_tx_end[OF rb] d'
    by (auto simp: operation_def begin_tx_def cl1_def split: sum.splits)
qed

subsection \<open>Stored amounts\<close>

lemma numeric_15_2_Inr:
  "numeric_15_2 n = Inr v \<Longrightarrow> \<exists>x. n = Fin x \<and> v = round2 (to_decimal x)"
  by (cases n) (auto simp: numeric_15_2_def split: if_splits)

lemma floor_half: "\<lfloor>of_int n + (1 / 2 :: rat)\<rfloor> = n"
  by (simp add: floor_unique)

lemma round2_of_int: "round2 (of_int n) = of_int n"
proof -
  have "\<lfloor>of_int n * 100 + (1 / 2 :: rat)\<rfloor> = n * 100"
    using floor_half[of "n * 100"] by simp
  moreover have "\<lfloor>- of_int n * 100 + (1 / 2 :: rat)\<rfloor> = - n * 100"
    using floor_half[of "- n * 100"] by simp
  ultimately show ?thesis by (simp add: round2_def)
qed

lemma round2_numeral:
  "round2 (numeral k) = numeral k" "round2 (- numeral k) = - numeral k"
  "round2 0 = 0" "round2 1 = 1"
  using round2_of_int[of "numeral k"] round2_of_int[of "- numeral k"]
    round2_of_int[of 0] round2_of_int[of 1] by simp_all

lemma round2_nonneg: "0 \<le> q \<Longrightarrow> 0 \<le> round2 q"
  by (simp add: round2_def)

lemma round2_examples:
  "round2 (1 / 8) = 13 / 100" "round2 (1 / 64) = 1 / 50" "round2 (1 / 256) = 0"
  by (simp_all add: round2_def floor_rat_numeral)

lemma stored_as_amounts:
  assumes "stored_as pf je now line row"
  shows "\<exists>dq cq. amount pf ''debit'' line = Inr (Fin dq) \<and> amount pf ''credit'' line = Inr (Fin cq) \<and>
           jel_debit row = round2 (to_decimal dq) \<and> jel_credit row = round2 (to_decimal cq)"
  using assms
  by (auto simp: stored_as_def split: sum.splits dest!: numeric_15_2_Inr)


subsection \<open>Seeding\<close>

lemma insert_account_succeeds:
  assumes "length num \<le> 10" "length nm \<le> 256" "length sub \<le> 128"
    and "coa_id_seq d + 1 \<notin> coa_id ` set (chart_of_accounts d)"
    and "num \<notin> coa_accountNumber ` set (chart_of_accounts d)"
  shows "insert_account num nm cat sub now now d =
           (Inr (), d\<lparr>chart_of_accounts := chart_of_accounts d @
                        [seeded_row (coa_id_seq d + 1) now
                           \<lparr>number = num, name = nm, category = cat, subcategory = sub\<rparr>],
                      coa_id_seq := coa_id_seq d + 1\<rparr>)"
  using assms by (simp add: insert_account_def varchar_def seeded_row_def Let_def)

lemma seeded_rows_length: "length (seeded_rows i now accs) = length accs"
  by (induction accs arbitrary: i) auto

lemma seeded_rows_props:
  "row \<in> set (seeded_rows i now accs) \<Longrightarrow>
     coa_isActive row \<and> coa_createdAt row = now \<and> coa_updatedAt row = now \<and>
     i < coa_id row \<and> coa_id row \<le> i + int (length accs) \<and>
     coa_accountNumber row \<in> number ` set accs"
  by (induction accs arbitrary: i) (fastforce simp: seeded_row_def)+

lemma seeded_rows_category:
  "coa_category ` set (seeded_rows i now accs) = category ` set accs"
  by (induction accs arbitrary: i) (auto simp: seeded_row_def)

lemma insert_accounts_succeeds:
  assumes "\<forall>k. \<not> f (InsertAccount k)"
    and "\<forall>a\<in>set accs. length (number a) \<le> 10 \<and> length (name a) \<le> 256 \<and>
           length (subcategory a) \<le> 128"
    and "distinct (map number accs)"
    and "\<forall>a\<in>set accs. number a \<notin> coa_accountNumber ` set (chart_of_accounts (store cl))"
    and "\<forall>row\<in>set (chart_of_accounts (store cl)). coa_id row \<le> coa_id_seq (store cl)"
  shows "\<exists>cl'. insert_accounts f now i accs cl = (Inr (), cl') \<and>
           chart_of_accounts (store cl') =
             chart_of_accounts (store cl) @ seeded_rows (coa_id_seq (store cl)) now accs \<and>
           journal_entries (store cl') = journal_entries (store cl) \<and>
           journal_entry_lines (store cl') = journal_entry_lines (store cl)"
  using assms
proof (induction accs arbitrary: i cl)
  case Nil
  then show ?case by simp
next
  case (Cons a accs)
  let ?d = "store cl"
  let ?row = "seeded_row (coa_id_seq ?d + 1) now a"
  let ?d1 = "?d\<lparr>chart_of_accounts := chart_of_accounts ?d @ [?row],
               coa_id_seq := coa_id_seq ?d + 1\<rparr>"
  let ?cl1 = "cl\<lparr>store := ?d1\<rparr>"
  have fresh_id: "coa_id_seq ?d + 1 \<notin> coa_id ` set (chart_of_accounts ?d)"
    using Cons.prems(5) by fastforce
  have a_eq: "\<lparr>number = number a, name = name a, category = category a,
               subcategory = subcategory a\<rparr> = a" by simp
  have st: "insert_account (number a) (name a) (category a) (subcategory a) now now ?d
              = (Inr (), ?d1)"
    using insert_account_succeeds[of "number a" "name a" "subcategory a" ?d "category a" now]
      Cons.prems(2,4) fresh_id a_eq by simp
  have q: "client_query f (InsertAccount i)
             (insert_account (number a) (name a) (category a) (subcategory a) now now) cl
           = (Inr (), ?cl1)"
    using Cons.prems(1) st by (simp add: client_query_def)
  have p2: "\<forall>b\<in>set accs. length (number b) \<le> 10 \<and> length (name b) \<le> 256 \<and>
              length (subcategory b) \<le> 128"
    using Cons.prems(2) by simp
  have p3: "distinct (map number accs)" using Cons.prems(3) by simp
  have p4: "\<forall>b\<in>set accs. number b \<notin> coa_accountNumber ` set (chart_of_accounts (store ?cl1))"
  proof
    fix b assume b: "b \<in> set accs"
    then have "number b \<in> number ` set accs" by (rule imageI)
    moreover have "number a \<notin> number ` set accs" using Cons.prems(3) by simp
    ultimately have "number b \<noteq> number a" by metis
    moreover have "number b \<notin> coa_accountNumber ` set (chart_of_accounts ?d)"
      using Cons.prems(4) b by simp
    ultimately show "number b \<notin> coa_accountNumber ` set (chart_of_accounts (store ?cl1))"
      by (simp add: seeded_row_def)
  qed
  have p5: "\<forall>row\<in>set (chart_of_accounts (store ?cl1)). coa_id row \<le> coa_id_seq (store ?cl1)"
    using Cons.prems(5) by (fastforce simp: seeded_row_def)
  from Cons.IH[OF Cons.prems(1) p2 p3 p4 p5, of "Suc i"] obtain cl' where
    ih: "insert_accounts f now (Suc i) accs ?cl1 = (Inr (), cl')"
        "chart_of_accounts (store cl') =
           chart_of_accounts (store ?cl1) @ seeded_rows (coa_id_seq (store ?cl1)) now accs"
        "journal_entries (store cl') = journal_entries (store ?cl1)"
        "journal_entry_lines (store cl') = journal_entry_lines (store ?cl1)"
    by blast
  have "insert_accounts f now i (a # accs) cl = (Inr (), cl')"
    using q ih(1) by simp
  moreover have "chart_of_accounts (store cl') =
      chart_of_accounts ?d @ seeded_rows (coa_id_seq ?d) now (a # accs)"
    using ih(2) by simp
  ultimately show ?case using ih(3,4) by simp
qed

lemma accounts_facts:
  "length accounts = 59"
  "distinct (map number accounts)"
  "\<forall>a\<in>set accounts. length (number a) \<le> 10 \<and> length (name a) \<le> 256 \<and>
     length (subcategory a) \<le> 128"
  "category ` set accounts = {Assets, Liabilities, Equity, Revenue, Expenses}"
  by (simp_all add: accounts_def)

text \<open>Seeding an empty chart of accounts with no failing call.\<close>

lemma seed_empty:
  assumes "chart_of_accounts (store cl) = []" and "\<forall>c. \<not> f c"
  shows "\<exists>cl'. seedChartOfAccounts f now cl = (Inr (), cl') \<and>
           chart_of_accounts (store cl') = seeded_rows (coa_id_seq (store cl)) now accounts \<and>
           journal_entries (store cl') = journal_entries (store cl) \<and>
           journal_entry_lines (store cl') = journal_entry_lines (store cl)"
proof -
  have q: "client_query f SelectCount select_count cl = (Inr 0, cl)"
    using assms by (simp add: client_query_def select_count_def)
  from insert_accounts_succeeds[of f accounts cl now 0] accounts_facts(2,3) assms
  obtain cl' where "insert_accounts f now 0 accounts cl = (Inr (), cl')"
    "chart_of_accounts (store cl') = seeded_rows (coa_id_seq (store cl)) now accounts"
    "journal_entries (store cl') = journal_entries (store cl)"
    "journal_entry_lines (store cl') = journal_entry_lines (store cl)"
    by auto
  with q show ?thesis by (simp add: seedChartOfAccounts_def)
qed

text \<open>Seeding a chart of accounts that is not empty.\<close>

lemma seed_nonempty:
  assumes "chart_of_accounts (store cl) \<noteq> []"
  shows "seedChartOfAccounts f now cl =
           (if f SelectCount then Inl (StorageError ConnectionFailure) else Inr (), cl)"
  using assms
  by (simp add: seedChartOfAccounts_def client_query_def select_count_def)

lemma insert_account_Inr:
  "insert_account num nm cat sub c u d = (Inr x, d') \<Longrightarrow>
     \<exists>row. chart_of_accounts d' = chart_of_accounts d @ [row]"
  by (auto simp: insert_account_def Let_def split: sum.splits option.splits if_splits)

lemma insert_accounts_Inr:
  "insert_accounts f now i accs cl = (Inr u, cl') \<Longrightarrow>
     \<exists>rows. chart_of_accounts (store cl') = chart_of_accounts (store cl) @ rows \<and>
            length rows = length accs"
proof (induction accs arbitrary: i cl)
  case Nil
  then show ?case by simp
next
  case (Cons a accs)
  from Cons.prems obtain cl1 where
    q: "client_query f (InsertAccount i)
          (insert_account (number a) (name a) (category a) (subcategory a) now now) cl
        = (Inr (), cl1)"
    and rest: "insert_accounts f now (Suc i) accs cl1 = (Inr u, cl')"
    by (auto split: prod.splits sum.splits)
  from client_query_Inr[OF q] insert_account_Inr obtain row where
    "chart_of_accounts (store cl1) = chart_of_accounts (store cl) @ [row]"
    by fastforce
  moreover from Cons.IH[OF rest] obtain rows where
    "chart_of_accounts (store cl') = chart_of_accounts (store cl1) @ rows"
    "length rows = length accs" by blast
  ultimately have "chart_of_accounts (store cl') = chart_of_accounts (store cl) @ (row # rows)"
    "length (row # rows) = length (a # accs)" by simp_all
  then show ?case by blast
qed

text \<open>A seeding that succeeds leaves a chart of accounts that is not empty.\<close>

lemma seed_Inr_nonempty:
  assumes "seedChartOfAccounts f now cl = (Inr u, cl')"
  shows "chart_of_accounts (store cl') \<noteq> []"
proof (cases "chart_of_accounts (store cl) = []")
  case True
  with assms have "insert_accounts f now 0 accounts cl = (Inr u, cl')"
    by (auto simp: seedChartOfAccounts_def client_query_def select_count_def split: if_splits)
  from insert_accounts_Inr[OF this] accounts_facts(1) show ?thesis by auto
next
  case False
  with assms seed_nonempty[OF False, of f now] show ?thesis by (auto split: if_splits)
qed

subsection \<open>Reading\<close>

lemma executeQuery_ok:
  "config_valid cfg \<Longrightarrow> \<not> f Connect \<Longrightarrow> \<not> f Query \<Longrightarrow>
     executeQuery cfg f sql d = (case sql d of Inl e \<Rightarrow> Inl (StorageError e) | Inr r \<Rightarrow> Inr r)"
  by (simp add: executeQuery_def config_valid_def)

lemma executeQuery_Inr:
  "executeQuery cfg f sql d = Inr rows \<Longrightarrow>
     sql d = Inr rows \<and> config_valid cfg \<and> \<not> f Connect \<and> \<not> f Query"
  by (auto simp: executeQuery_def config_valid_def split: option.splits if_splits sum.splits)

lemma sort_key_map: "sort_key f (map g xs) = map g (sort_key (\<lambda>x. f (g x)) xs)"
proof (induction xs)
  case Nil
  then show ?case by simp
next
  case (Cons x xs)
  have ins: "insort_key f (g x) (map g ys) = map g (insort_key (\<lambda>x. f (g x)) x ys)" for ys
    by (induction ys) auto
  from Cons ins show ?case by simp
qed

subsection \<open>The statement of getAccountBalances\<close>

lemma left_join_lines_fst: "r \<in> set (left_join_lines jel a) \<Longrightarrow> fst r = a"
  by (auto simp: left_join_lines_def split: list.splits)

lemma left_join_lines_nonempty: "left_join_lines jel a \<noteq> []"
  by (auto simp: left_join_lines_def split: list.splits)

lemma filter_left_join_lines:
  "filter (\<lambda>(a, l). P a) (left_join_lines jel a) = (if P a then left_join_lines jel a else [])"
proof -
  have "\<forall>r\<in>set (left_join_lines jel a). (case r of (b, l) \<Rightarrow> P b) = P a"
    using left_join_lines_fst by fastforce
  then show ?thesis
    by (cases "P a") (simp_all add: filter_id_conv filter_empty_conv)
qed

lemma filter_join:
  "filter (\<lambda>(a, l). P a) (concat (map (left_join_lines jel) coa))
     = concat (map (left_join_lines jel) (filter P coa))"
  by (induction coa) (simp_all add: filter_left_join_lines)

lemma remdups_replicate_append:
  "0 < n \<Longrightarrow> k \<notin> set ys \<Longrightarrow> remdups (replicate n k @ ys) = k # remdups ys"
proof (induction n)
  case 0
  then show ?case by simp
next
  case (Suc n)
  then show ?case by (cases n) auto
qed

lemma group_by_join:
  assumes "distinct (map K xs)"
  shows "group_by (\<lambda>(a, l). K a) (concat (map (left_join_lines jel) xs))
           = map (\<lambda>a. (K a, left_join_lines jel a)) xs"
  using assms
proof (induction xs)
  case Nil
  then show ?case by (simp add: group_by_def)
next
  case (Cons a xs)
  let ?key = "\<lambda>(a, l). K a"
  let ?L = "left_join_lines jel a"
  let ?R = "concat (map (left_join_lines jel) xs)"
  have "map ?key ?L = map (\<lambda>r. K a) ?L"
    by (rule map_cong) (auto dest: left_join_lines_fst)
  then have keyL: "map ?key ?L = replicate (length ?L) (K a)"
    by (simp add: map_replicate_const)
  have keysR: "set (map ?key ?R) \<subseteq> K ` set xs"
    using left_join_lines_fst by (fastforce simp: case_prod_beta)
  have "K a \<notin> K ` set xs" using Cons.prems by simp
  with keysR have notin: "K a \<notin> set (map ?key ?R)" by blast
  have rd: "remdups (map ?key (?L @ ?R)) = K a # remdups (map ?key ?R)"
    using remdups_replicate_append[of "length ?L" "K a" "map ?key ?R"]
      left_join_lines_nonempty[of jel a] notin keyL by simp
  have fL: "filter (\<lambda>r. ?key r = K a) ?L = ?L"
    using left_join_lines_fst[of _ jel a] by (auto simp: filter_id_conv case_prod_beta)
  have "\<forall>r\<in>set ?R. ?key r \<noteq> K a"
    using notin by (metis imageI set_map)
  then have fR: "filter (\<lambda>r. ?key r = K a) ?R = []"
    by (simp add: filter_empty_conv)
  have other: "filter (\<lambda>r. ?key r = k) (?L @ ?R) = filter (\<lambda>r. ?key r = k) ?R"
    if "k \<in> set (remdups (map ?key ?R))" for k
  proof -
    from that have "k \<in> set (map ?key ?R)" by simp
    with notin have "k \<noteq> K a" by metis
    then have "filter (\<lambda>r. ?key r = k) ?L = []"
      using left_join_lines_fst[of _ jel a] by (auto simp: filter_empty_conv case_prod_beta)
    then show ?thesis by simp
  qed
  have "group_by ?key (?L @ ?R) = (K a, ?L) # group_by ?key ?R"
    unfolding group_by_def rd using fL fR other by simp
  moreover have "group_by ?key ?R = map (\<lambda>a. (K a, left_join_lines jel a)) xs"
    using Cons.IH Cons.prems by simp
  ultimately show ?case by simp
qed

lemma sql_sum_None: "sql_sum [None] = None"
  by (simp add: sql_sum_def List.map_filter_def)

lemma sql_sum_Some:
  "ls \<noteq> [] \<Longrightarrow> sql_sum (map (\<lambda>l. Some (g l)) ls) = Some (sum_list (map g ls))"
  by (cases ls) (simp_all add: sql_sum_def List.map_filter_def comp_def)

lemma aggregate_join:
  "aggregate ((coa_id a, coa_category a, coa_accountNumber a, coa_accountName a),
              left_join_lines jel a) = balance_row_of jel a"
proof -
  let ?ls = "filter (\<lambda>l. coa_id a = jel_accountId l) jel"
  have eq: "filter (\<lambda>l. jel_accountId l = coa_id a) jel = ?ls"
    by (rule filter_cong) auto
  show ?thesis
  proof (cases "?ls = []")
    case True
    then show ?thesis
      unfolding balance_row_of_def eq
      by (simp add: aggregate_def left_join_lines_def sql_sum_None coalesce_def)
  next
    case False
    then have lj: "left_join_lines jel a = map (\<lambda>l. (a, Some l)) ?ls"
      by (simp add: left_join_lines_def split: list.splits)
    show ?thesis
      unfolding balance_row_of_def eq
      using sql_sum_Some[OF False, of jel_debit] sql_sum_Some[OF False, of jel_credit]
      by (simp add: aggregate_def lj comp_def coalesce_def)
  qed
qed

lemma distinct_key:
  assumes "distinct (map coa_id xs)"
  shows "distinct (map (\<lambda>a. (coa_id a, coa_category a, coa_accountNumber a, coa_accountName a)) xs)"
proof -
  have "inj_on coa_id (set xs)" using assms by (simp add: distinct_map)
  then have "inj_on (\<lambda>a. (coa_id a, coa_category a, coa_accountNumber a, coa_accountName a)) (set xs)"
    by (auto simp: inj_on_def)
  moreover have "distinct xs" using assms by (simp add: distinct_map)
  ultimately show ?thesis by (simp add: distinct_map)
qed

lemma select_account_balances_eq:
  assumes "distinct (map coa_id (chart_of_accounts d))"
  shows "select_account_balances d =
           Inr (map (balance_row_of (journal_entry_lines d))
                  (sort_key coa_accountNumber (filter coa_isActive (chart_of_accounts d))))"
proof -
  let ?jel = "journal_entry_lines d"
  let ?act = "filter coa_isActive (chart_of_accounts d)"
  let ?K = "\<lambda>a. (coa_id a, coa_category a, coa_accountNumber a, coa_accountName a)"
  have "distinct (map coa_id ?act)" using assms by (simp add: distinct_map_filter)
  then have dk: "distinct (map ?K ?act)" by (rule distinct_key)
  have "map aggregate (group_by (\<lambda>(a, l). ?K a)
          (filter (\<lambda>(a, l). coa_isActive a)
             (concat (map (left_join_lines ?jel) (chart_of_accounts d)))))
        = map (balance_row_of ?jel) ?act"
    unfolding filter_join group_by_join[OF dk]
    by (simp add: aggregate_join comp_def)
  moreover have "(\<lambda>a. br_accountNumber (balance_row_of ?jel a)) = coa_accountNumber"
    by (auto simp: balance_row_of_def)
  ultimately show ?thesis
    by (simp add: select_account_balances_def sort_key_map)
qed

subsection \<open>The loop of getAccountBalances\<close>

lemma foldl_push_row:
  "bucket_of (foldl push_row g rows) c
     = bucket_of g c @ map item_of (filter (\<lambda>r. br_category r = c) rows)"
proof (induction rows arbitrary: g)
  case Nil
  then show ?case by simp
next
  case (Cons r rows)
  have "bucket_of (push_row g r) c
          = bucket_of g c @ (if br_category r = c then [item_of r] else [])"
    by (cases c; cases "br_category r") (simp_all add: push_row_def item_of_def)
  with Cons.IH[of "push_row g r"] show ?case by simp
qed

lemma grouped_eqI:
  "(\<And>c. bucket_of g c = bucket_of h c) \<Longrightarrow> g = (h :: grouped)"
proof -
  assume a: "\<And>c. bucket_of g c = bucket_of h c"
  from a[of Assets] a[of Liabilities] a[of Equity] a[of Revenue] a[of Expenses]
  show "g = h" by (cases g, cases h) simp
qed

lemma item_of_row: "item_of (balance_row_of jel a) = balance_of jel a"
  by (simp add: item_of_def balance_row_of_def balance_of_def parseFloat_or_0_def)

lemma bucket_of_spec: "bucket_of (accountBalances_spec d) c = bucket d c"
  by (cases c) (simp_all add: accountBalances_spec_def)

lemma getAccountBalances_eq:
  assumes "config_valid cfg" "\<not> f Connect" "\<not> f Query"
    and "distinct (map coa_id (chart_of_accounts d))"
  shows "getAccountBalances cfg f d = Inr (accountBalances_spec d)"
proof -
  let ?rows = "map (balance_row_of (journal_entry_lines d))
                 (sort_key coa_accountNumber (filter coa_isActive (chart_of_accounts d)))"
  let ?g0 = "\<lparr>assets = [], liabilities = [], equity = [], revenue = [], expenses = []\<rparr>"
  have run: "getAccountBalances cfg f d = Inr (foldl push_row ?g0 ?rows)"
    using assms(1-3) select_account_balances_eq[OF assms(4)]
    by (simp add: getAccountBalances_def executeQuery_ok)
  have "bucket_of (foldl push_row ?g0 ?rows) c = bucket d c" for c
  proof -
    have "bucket_of ?g0 c = []" by (cases c) simp_all
    moreover have "(\<lambda>r. br_category r = c) \<circ> balance_row_of (journal_entry_lines d)
        = (\<lambda>a. coa_category a = c)"
      by (auto simp: balance_row_of_def)
    ultimately show ?thesis
      by (simp add: foldl_push_row filter_map bucket_def item_of_row comp_def)
  qed
  then have "foldl push_row ?g0 ?rows = accountBalances_spec d"
    by (intro grouped_eqI) (simp add: bucket_of_spec)
  with run show ?thesis by simp
qed


subsection \<open>The statements keep the integrity of the tables\<close>

lemma insert_journal_entry_integrity:
  assumes "insert_journal_entry pf ed de rn cb c u d = (r, d')" and "integrity d"
  shows "integrity d'"
  using assms
  by (auto simp: insert_journal_entry_def integrity_def Let_def
           split: sum.splits if_splits option.splits)

lemma insert_journal_entry_line_integrity:
  assumes "insert_journal_entry_line pf je a dn cn ds c u d = (r, d')" and "integrity d"
  shows "integrity d'"
  using assms
  by (auto simp: insert_journal_entry_line_def integrity_def Let_def
           split: sum.splits if_splits option.splits)

lemma insert_account_integrity:
  assumes "insert_account num nm cat sub c u d = (r, d')" and "integrity d"
  shows "integrity d'"
  using assms
  by (auto simp: insert_account_def integrity_def Let_def
           split: sum.splits if_splits option.splits)

lemma client_query_integrity:
  assumes "client_query f c stmt cl = (r, cl')" and "integrity (store cl)"
    and "\<And>x d'. stmt (store cl) = (x, d') \<Longrightarrow> integrity d'"
  shows "integrity (store cl')"
  using assms by (auto simp: client_query_def split: if_splits sum.splits prod.splits)

lemma insert_lines_integrity:
  "insert_lines pf f now je i ls cl = (r, cl') \<Longrightarrow> integrity (store cl) \<Longrightarrow> integrity (store cl')"
proof (induction ls arbitrary: i cl)
  case Nil
  then show ?case by simp
next
  case (Cons l ls)
  show ?case
  proof (cases "\<exists>deb cre. amount pf ''debit'' l = Inr deb \<and> amount pf ''credit'' l = Inr cre")
    case False
    with Cons.prems show ?thesis by (auto split: sum.splits)
  next
    case True
    then obtain deb cre where a: "amount pf ''debit'' l = Inr deb" "amount pf ''credit'' l = Inr cre"
      by blast
    obtain r1 cl1 where q: "client_query f (InsertLine i)
          (insert_journal_entry_line pf je (js_get l ''accountId'') deb cre
             (or_null (js_get l ''description'')) now now) cl = (r1, cl1)"
      by fastforce
    have i1: "integrity (store cl1)"
      using client_query_integrity[OF q Cons.prems(2)]
        insert_journal_entry_line_integrity[OF _ Cons.prems(2)]
      by blast
    show ?thesis
    proof (cases r1)
      case (Inl e)
      with q a Cons.prems(1) i1 show ?thesis by simp
    next
      case (Inr u)
      with q a Cons.prems(1) have "insert_lines pf f now je (Suc i) ls cl1 = (r, cl')" by simp
      from Cons.IH[OF this i1] show ?thesis .
    qed
  qed
qed

lemma insert_accounts_integrity:
  "insert_accounts f now i accs cl = (r, cl') \<Longrightarrow> integrity (store cl) \<Longrightarrow> integrity (store cl')"
proof (induction accs arbitrary: i cl)
  case Nil
  then show ?case by simp
next
  case (Cons a accs)
  obtain r1 cl1 where q: "client_query f (InsertAccount i)
          (insert_account (number a) (name a) (category a) (subcategory a) now now) cl = (r1, cl1)"
    by fastforce
  have i1: "integrity (store cl1)"
    using client_query_integrity[OF q Cons.prems(2)] insert_account_integrity[OF _ Cons.prems(2)]
    by blast
  show ?case
  proof (cases r1)
    case (Inl e)
    with q Cons.prems(1) i1 show ?thesis by simp
  next
    case (Inr u)
    with q Cons.prems(1) have "insert_accounts f now (Suc i) accs cl1 = (r, cl')" by simp
    from Cons.IH[OF this i1] show ?thesis .
  qed
qed

text \<open>Seeding keeps the integrity of the tables, whatever fails.\<close>

lemma seedChartOfAccounts_integrity:
  assumes "seedChartOfAccounts f now cl = (r, cl')" and "integrity (store cl)"
  shows "integrity (store cl')"
  using assms
  by (auto simp: seedChartOfAccounts_def client_query_def select_count_def
           split: if_splits dest: insert_accounts_integrity)

lemma integrity_same_rows: "same_rows d d' \<Longrightarrow> integrity d \<Longrightarrow> integrity d'"
  by (simp add: same_rows_def integrity_def)

lemma try_block_integrity:
  assumes "try_block pf f now ed de rn cb lines cl = (res, cl')" and "integrity (store cl)"
  shows "integrity (store cl')"
proof -
  obtain r1 cl1 where q1: "client_query f InsertEntry
             (insert_journal_entry pf ed de (or_null rn) (or_null cb) now now) cl = (r1, cl1)"
    by fastforce
  have i1: "integrity (store cl1)"
    using client_query_integrity[OF q1 assms(2)] insert_journal_entry_integrity[OF _ assms(2)]
    by blast
  have il: "integrity (store c)" if "insert_lines pf f now je 0 ls cl1 = (r, c)" for je ls r c
    using insert_lines_integrity[OF that i1] .
  show ?thesis
    using assms(1) q1 i1 il
    unfolding try_block_def commit_tx_def
    by (auto simp: client_query_def select_journal_entry_def select_lines_of_entry_def
             split: prod.splits sum.splits if_splits jsvalue.splits)
qed

text \<open>createJournalEntry keeps the integrity of the tables, whatever it returns.\<close>

lemma createJournalEntry_integrity:
  assumes "createJournalEntry pf cfg f now d p = (res, d')" and "integrity d"
  shows "integrity d'"
proof (cases "same_rows d d'")
  case True
  from integrity_same_rows[OF True assms(2)] show ?thesis .
next
  case False
  with createJournalEntry_cases[OF assms(1)]
  have c: "config_valid cfg" "payload_valid pf p" by auto
  define ed where "ed = js_get p ''entryDate''"
  define de where "de = js_get p ''description''"
  define rn where "rn = js_get p ''referenceNumber''"
  define cb where "cb = js_get p ''createdBy''"
  define lines where "lines = js_get p ''lines''"
  from assms(1) createJournalEntry_valid[OF c, of f now d]
  have op: "operation pf f now ed de rn cb lines d = (res, d')"
    by (simp add: ed_def de_def rn_def cb_def lines_def)
  have nf: "\<not> f Connect" "\<not> f Begin"
    using op False by (auto simp: operation_def begin_tx_def client_end_def abort_def
        same_rows_def split: if_splits)
  obtain r2 cl2 where tb: "try_block pf f now ed de rn cb lines \<lparr>store = d, tx = Some d\<rparr> = (r2, cl2)"
    by fastforce
  from try_block_integrity[OF tb] assms(2) have i2: "integrity (store cl2)" by simp
  obtain r3 cl3 where rb: "rollback_tx f cl2 = (r3, cl3)" by fastforce
  have d': "d' = client_end cl2"
    using op nf tb rb rollback_tx_end[OF rb]
    by (auto simp: operation_def begin_tx_def split: sum.splits)
  show ?thesis
  proof (cases "tx cl2")
    case None
    then show ?thesis using d' i2 by (simp add: client_end_def abort_closed)
  next
    case (Some s)
    with try_block_cases[OF tb] have "s = d" by auto
    with Some abort_open[of cl2 s] d' have "same_rows d d'" by (simp add: client_end_def)
    with False show ?thesis by simp
  qed
qed

subsection \<open>Balances recomputed from the lines of each entry\<close>

lemma filter_unique_key:
  "distinct (map k xs) \<Longrightarrow> v \<in> set (map k xs) \<Longrightarrow> \<exists>x. filter (\<lambda>a. v = k a) xs = [x]"
proof (induction xs)
  case Nil
  then show ?case by simp
next
  case (Cons y ys)
  show ?case
  proof (cases "v = k y")
    case True
    with Cons.prems(1) have "filter (\<lambda>a. v = k a) ys = []"
      by (auto simp: filter_empty_conv)
    with True show ?thesis by simp
  next
    case False
    with Cons show ?thesis by auto
  qed
qed

lemma join_account_line:
  assumes "distinct (map coa_id coa)" and "jel_accountId l \<in> set (map coa_id coa)"
  shows "map lwa_line (join_account coa l) = [l]"
proof -
  from filter_unique_key[OF assms] obtain a where
    "filter (\<lambda>a. jel_accountId l = coa_id a) coa = [a]" by blast
  then show ?thesis by (simp add: join_account_def)
qed

lemma join_accounts_lines:
  assumes "distinct (map coa_id coa)"
    and "\<forall>l\<in>set ls. jel_accountId l \<in> set (map coa_id coa)"
  shows "map lwa_line (concat (map (join_account coa) ls)) = ls"
  using assms(2)
proof (induction ls)
  case Nil
  then show ?case by simp
next
  case (Cons l ls)
  then show ?case using join_account_line[OF assms(1), of l] by simp
qed

lemma sum_list_filter_sort_key:
  "(\<Sum>x\<leftarrow>filter P (sort_key k xs). g x) = (\<Sum>x\<leftarrow>filter P xs. (g x :: rat))"
proof -
  have "mset (map g (filter P (sort_key k xs))) = mset (map g (filter P xs))"
    by simp
  then show ?thesis by (metis sum_mset_sum_list)
qed

lemma sum_list_one_key:
  "distinct (map k es) \<Longrightarrow> v \<in> set (map k es) \<Longrightarrow>
     (\<Sum>e\<leftarrow>es. if v = k e then c else 0) = (c :: rat)"
proof (induction es)
  case Nil
  then show ?case by simp
next
  case (Cons e es)
  show ?case
  proof (cases "v = k e")
    case True
    with Cons.prems(1) have "\<forall>x\<in>set es. v \<noteq> k x" by auto
    then have "(\<Sum>x\<leftarrow>es. if v = k x then c else 0) = (\<Sum>x\<leftarrow>es. 0)"
      by (intro arg_cong[where f = sum_list] map_cong) auto
    with True show ?thesis by simp
  next
    case False
    with Cons show ?thesis by auto
  qed
qed

lemma sum_list_by_key:
  assumes "distinct (map k es)" and "\<forall>l\<in>set ls. h l \<in> set (map k es)"
  shows "(\<Sum>e\<leftarrow>es. \<Sum>l\<leftarrow>filter (\<lambda>l. h l = k e) ls. g l) = (\<Sum>l\<leftarrow>ls. (g l :: rat))"
  using assms(2)
proof (induction ls)
  case Nil
  then show ?case by simp
next
  case (Cons l ls)
  have "(\<Sum>e\<leftarrow>es. \<Sum>x\<leftarrow>filter (\<lambda>x. h x = k e) (l # ls). g x)
          = (\<Sum>e\<leftarrow>es. (if h l = k e then g l else 0) + (\<Sum>x\<leftarrow>filter (\<lambda>x. h x = k e) ls. g x))"
    by (intro arg_cong[where f = sum_list] map_cong) auto
  also have "\<dots> = (\<Sum>e\<leftarrow>es. if h l = k e then g l else 0)
                  + (\<Sum>e\<leftarrow>es. \<Sum>x\<leftarrow>filter (\<lambda>x. h x = k e) ls. g x)"
    by (simp add: sum_list_addf)
  also have "\<dots> = g l + (\<Sum>x\<leftarrow>ls. g x)"
    using sum_list_one_key[OF assms(1), of "h l" "g l"] Cons by simp
  finally show ?case by simp
qed

text \<open>The lines that getJournalEntryLines returns for an entry are the lines of the entry.\<close>

lemma getJournalEntryLines_lines:
  assumes "integrity d" and "config_valid cfg" and "\<not> f Connect" and "\<not> f Query"
  shows "\<exists>rows. getJournalEntryLines cfg f i d = Inr rows \<and>
           map lwa_line rows =
             sort_key jel_id (filter (\<lambda>l. jel_journalEntryId l = i) (journal_entry_lines d))"
proof -
  let ?ls = "filter (\<lambda>l. jel_journalEntryId l = i) (journal_entry_lines d)"
  let ?X = "concat (map (join_account (chart_of_accounts d)) ?ls)"
  have "map lwa_line ?X = ?ls"
    using assms(1) by (intro join_accounts_lines) (auto simp: integrity_def)
  then have "map lwa_line (sort_key (\<lambda>r. jel_id (lwa_line r)) ?X) = sort_key jel_id ?ls"
    using sort_key_map[of jel_id lwa_line ?X] by simp
  then show ?thesis
    using assms(2-4)
    by (simp add: getJournalEntryLines_def executeQuery_ok select_journal_entry_lines_def)
qed

lemma entry_lines_of_account:
  fixes g :: "journal_entry_line \<Rightarrow> rat"
  assumes "integrity d" and "config_valid cfg" and "\<not> f Connect" and "\<not> f Query"
  shows "(case getJournalEntryLines cfg f i d of
            Inl _ \<Rightarrow> 0
          | Inr rows \<Rightarrow> (\<Sum>r\<leftarrow>filter (\<lambda>r. jel_accountId (lwa_line r) = v) rows. g (lwa_line r)))
        = (\<Sum>l\<leftarrow>filter (\<lambda>l. jel_journalEntryId l = i)
                 (filter (\<lambda>l. jel_accountId l = v) (journal_entry_lines d)). g l)"
proof -
  from getJournalEntryLines_lines[OF assms, of i] obtain rows where
    run: "getJournalEntryLines cfg f i d = Inr rows"
    and rows: "map lwa_line rows =
      sort_key jel_id (filter (\<lambda>l. jel_journalEntryId l = i) (journal_entry_lines d))"
    by blast
  have "(\<Sum>r\<leftarrow>filter (\<lambda>r. jel_accountId (lwa_line r) = v) rows. g (lwa_line r))
          = (\<Sum>l\<leftarrow>filter (\<lambda>l. jel_accountId l = v) (map lwa_line rows). g l)"
    by (simp add: filter_map comp_def)
  also have "\<dots> = (\<Sum>l\<leftarrow>filter (\<lambda>l. jel_accountId l = v)
                        (filter (\<lambda>l. jel_journalEntryId l = i) (journal_entry_lines d)). g l)"
    unfolding rows by (rule sum_list_filter_sort_key)
  also have "\<dots> = (\<Sum>l\<leftarrow>filter (\<lambda>l. jel_journalEntryId l = i)
                        (filter (\<lambda>l. jel_accountId l = v) (journal_entry_lines d)). g l)"
    by (simp add: conj_commute)
  finally show ?thesis using run by simp
qed

text \<open>The totals of getAccountBalances are what one gets from the lines of every entry, as
  getJournalEntryLines returns them, by adding up those of the account.\<close>

lemma balance_of_entry_lines:
  assumes "integrity d" and "config_valid cfg" and "\<not> f Connect" and "\<not> f Query"
  shows "totalDebit (balance_of (journal_entry_lines d) a) =
           (\<Sum>e\<leftarrow>journal_entries d.
              case getJournalEntryLines cfg f (je_id e) d of
                Inl _ \<Rightarrow> 0
              | Inr rows \<Rightarrow>
                  (\<Sum>r\<leftarrow>filter (\<lambda>r. jel_accountId (lwa_line r) = coa_id a) rows.
                     jel_debit (lwa_line r)))"
    and "totalCredit (balance_of (journal_entry_lines d) a) =
           (\<Sum>e\<leftarrow>journal_entries d.
              case getJournalEntryLines cfg f (je_id e) d of
                Inl _ \<Rightarrow> 0
              | Inr rows \<Rightarrow>
                  (\<Sum>r\<leftarrow>filter (\<lambda>r. jel_accountId (lwa_line r) = coa_id a) rows.
                     jel_credit (lwa_line r)))"
proof -
  let ?mine = "filter (\<lambda>l. jel_accountId l = coa_id a) (journal_entry_lines d)"
  have fk: "\<forall>l\<in>set ?mine. jel_journalEntryId l \<in> set (map je_id (journal_entries d))"
    using assms(1) by (auto simp: integrity_def)
  have dist: "distinct (map je_id (journal_entries d))"
    using assms(1) by (simp add: integrity_def)
  show "totalDebit (balance_of (journal_entry_lines d) a) =
           (\<Sum>e\<leftarrow>journal_entries d.
              case getJournalEntryLines cfg f (je_id e) d of
                Inl _ \<Rightarrow> 0
              | Inr rows \<Rightarrow>
                  (\<Sum>r\<leftarrow>filter (\<lambda>r. jel_accountId (lwa_line r) = coa_id a) rows.
                     jel_debit (lwa_line r)))"
    unfolding entry_lines_of_account[OF assms, where g = jel_debit]
    using sum_list_by_key[OF dist fk, of jel_debit] by (simp add: balance_of_def)
  show "totalCredit (balance_of (journal_entry_lines d) a) =
           (\<Sum>e\<leftarrow>journal_entries d.
              case getJournalEntryLines cfg f (je_id e) d of
                Inl _ \<Rightarrow> 0
              | Inr rows \<Rightarrow>
                  (\<Sum>r\<leftarrow>filter (\<lambda>r. jel_accountId (lwa_line r) = coa_id a) rows.
                     jel_credit (lwa_line r)))"
    unfolding entry_lines_of_account[OF assms, where g = jel_credit]
    using sum_list_by_key[OF dist fk, of jel_credit] by (simp add: balance_of_def)
qed

section \<open>What createJournalEntry guarantees\<close>

lemmas run_defs =
  createJournalEntry_def operation_def try_block_def begin_tx_def commit_tx_def rollback_tx_def
  client_end_def abort_def restore_def client_query_def insert_journal_entry_def
  insert_journal_entry_line_def select_journal_entry_def select_lines_of_entry_def
  join_account_def journal_entry_issues_def length_gt_0_def totalDebits_def totalCredits_def
  amount_def nullish_def Number_or_0_def truthy_num_def or_null_def js_sub_def
  numeric_15_2_def int4_param_def text_param_def date_param_def varchar_def
  validateAccountingDatabaseConfig_def validateAccountingQueryConfig_def Let_def
  to_double_numeral to_double_hundredth to_double_dyadic to_decimal_0 to_decimal_examples
  to_decimal_minus
  round2_numeral round2_examples

lemmas example_defs =
  example_config_def no_faults_def example_platform_def example_account_def example_db_def
  example_line_def example_payload_def example_entry_def example_row_def

text \<open>
  Claim C1 says that createJournalEntry fails with the validation error whenever a
  precondition is violated. The payload below has a date and a description, and the string
  \<^verbatim>\<open>'abc'\<close> for \<^verbatim>\<open>lines\<close>. The first test of \<^verbatim>\<open>lines\<close> (line 382) asks for an array and
  records the issue; the second test (line 387) asks only for a truthy value with a positive
  length, so \<^verbatim>\<open>lines.reduce\<close> (line 388) is called on the string and throws a
  \<^verbatim>\<open>TypeError\<close>. The validation error of line 398 is not raised. The same happens for the
  array \<^verbatim>\<open>[null]\<close>, where \<^verbatim>\<open>line.debit\<close> throws. The database is not touched.
\<close>

theorem createJournalEntry_lines_type_error:
  "createJournalEntry example_platform example_config no_faults 1 example_db
     (JObject [(''entryDate'', JString ''2024-01-01''), (''description'', JString ''Rent''),
               (''lines'', JString ''abc'')])
   = (Inl TypeError, example_db)
   \<and> createJournalEntry example_platform example_config no_faults 1 example_db
       (JObject [(''entryDate'', JString ''2024-01-01''), (''description'', JString ''Rent''),
                 (''lines'', JArray [JNull])])
     = (Inl TypeError, example_db)"
  by (simp add: run_defs example_defs)

text \<open>
  What holds of the atomicity. A call given a payload that does not pass the validation fails
  and leaves the database exactly as it was. When the insertion of a line fails (the call
  itself fails, or the line is one the table rejects, such as a line for an account that does
  not exist), the call fails and every table holds the rows it held before. In every run,
  either the tables hold the same rows as before or the header and one row for every line
  have been added; a call that returns a result has added them.
\<close>

lemma createJournalEntry_all_or_nothing:
  assumes "createJournalEntry pf cfg f now d p = (res, d')"
  shows "(\<not> payload_valid pf p \<longrightarrow> isl res \<and> d' = d)
       \<and> ((\<exists>ls k. js_get p ''lines'' = JArray ls \<and> k < length ls \<and>
               (f (InsertLine k) \<or> line_rejected pf (chart_of_accounts d) (ls ! k)))
          \<longrightarrow> isl res \<and> same_rows d d')
       \<and> (same_rows d d' \<or>
            entry_added pf now (js_get p ''description'') (js_get p ''lines'') d d')
       \<and> (\<not> isl res \<longrightarrow>
            entry_added pf now (js_get p ''description'') (js_get p ''lines'') d d')"
proof -
  have a: "isl res \<and> d' = d" if "\<not> payload_valid pf p"
    using createJournalEntry_not_valid[OF assms] that by blast
  from createJournalEntry_cases[OF assms] consider
      (unchanged) "isl res" "same_rows d d'"
    | (added) "written pf f now (js_get p ''description'') (js_get p ''lines'') d d'" by blast
  then have b: "(same_rows d d' \<or>
        entry_added pf now (js_get p ''description'') (js_get p ''lines'') d d')
      \<and> (\<not> isl res \<longrightarrow> entry_added pf now (js_get p ''description'') (js_get p ''lines'') d d')
      \<and> ((\<exists>ls k. js_get p ''lines'' = JArray ls \<and> k < length ls \<and>
               (f (InsertLine k) \<or> line_rejected pf (chart_of_accounts d) (ls ! k)))
          \<longrightarrow> isl res \<and> same_rows d d')"
  proof cases
    case unchanged
    then show ?thesis by simp
  next
    case added
    then show ?thesis unfolding written_def by auto
  qed
  from a b show ?thesis by blast
qed

text \<open>The second line names account 3, which the example ledger does not have: the header
  is inserted, the second line is refused, and the tables are as before. Both sequences have
  moved: the header took one value, each of the two lines took one.\<close>

lemma createJournalEntry_rolls_back:
  "createJournalEntry example_platform example_config no_faults 1 example_db
     (example_payload [example_line 1 0 1500, example_line 3 1500 0])
   = (Inl (StorageError ForeignKeyViolation), example_db\<lparr>je_id_seq := 1, jel_id_seq := 2\<rparr>)"
  by (simp add: run_defs example_defs)




text \<open>
  Claim C3. The validation error of createJournalEntry names every violated precondition and
  no other: the missing entry date, the missing description, the missing or empty \<open>lines\<close>,
  and, when the totals of a non-empty \<open>lines\<close> differ by more than 0.01, the two totals. It is
  raised before anything is written.
\<close>

theorem createJournalEntry_reports_all_violations:
  assumes "createJournalEntry pf cfg f now d p = (Inl (InvalidJournalEntry issues), d')"
  shows "(EntryDateRequired \<in> set issues \<longleftrightarrow> \<not> truthy (js_get p ''entryDate''))
       \<and> (DescriptionRequired \<in> set issues \<longleftrightarrow> \<not> truthy (js_get p ''description''))
       \<and> (LinesRequired \<in> set issues \<longleftrightarrow>
            \<not> (\<exists>ls. js_get p ''lines'' = JArray ls \<and> ls \<noteq> []))
       \<and> (\<forall>a b. NotBalanced a b \<in> set issues \<longleftrightarrow>
             (\<exists>ls. js_get p ''lines'' = JArray ls \<and> ls \<noteq> [] \<and>
                   totalDebits pf ls = Inr a \<and> totalCredits pf ls = Inr b \<and>
                   js_gt (js_abs (js_sub a b)) (to_double (1 / 100))))
       \<and> issues \<noteq> [] \<and> d' = d"
proof -
  define ed where "ed = js_get p ''entryDate''"
  define de where "de = js_get p ''description''"
  define lines where "lines = js_get p ''lines''"
  from createJournalEntry_validation_error[OF assms]
  have i: "journal_entry_issues pf ed de lines = Inr issues" and rest: "issues \<noteq> []" "d' = d"
    by (auto simp: ed_def de_def lines_def)
  have "(EntryDateRequired \<in> set issues \<longleftrightarrow> \<not> truthy ed)
      \<and> (DescriptionRequired \<in> set issues \<longleftrightarrow> \<not> truthy de)
      \<and> (LinesRequired \<in> set issues \<longleftrightarrow> \<not> (\<exists>ls. lines = JArray ls \<and> ls \<noteq> []))
      \<and> (\<forall>a b. NotBalanced a b \<in> set issues \<longleftrightarrow>
             (\<exists>ls. lines = JArray ls \<and> ls \<noteq> [] \<and>
                   totalDebits pf ls = Inr a \<and> totalCredits pf ls = Inr b \<and>
                   js_gt (js_abs (js_sub a b)) (to_double (1 / 100))))"
  proof (cases "isArray lines")
    case True
    then obtain ls where ls: "lines = JArray ls" by (cases lines) auto
    show ?thesis
      using i unfolding ls journal_entry_issues_def Let_def length_gt_0_array
      by (cases "ls = []") (auto split: sum.splits if_splits)
  next
    case False
    then have na: "\<And>ls. lines \<noteq> JArray ls" by auto
    from i False have "issues =
          (if \<not> truthy ed then [EntryDateRequired] else [])
        @ (if \<not> truthy de then [DescriptionRequired] else [])
        @ [LinesRequired]"
      by (cases lines)
         (auto simp: journal_entry_issues_def Let_def split: sum.splits bool.splits if_splits)
    then show ?thesis using na by auto
  qed
  then show ?thesis using rest unfolding ed_def de_def lines_def by blast
qed

text \<open>No date, an empty description, and debits of 1000 against credits of 900: three
  issues.\<close>

theorem createJournalEntry_reports_all_violations_witness:
  "createJournalEntry example_platform example_config no_faults 1 example_db
     (JObject [(''description'', JString []),
               (''lines'', JArray [example_line 1 0 900, example_line 2 1000 0])])
   = (Inl (InvalidJournalEntry
            [EntryDateRequired, DescriptionRequired, NotBalanced (Fin 1000) (Fin 900)]),
      example_db)
   \<and> LinesRequired \<notin> set [EntryDateRequired, DescriptionRequired, NotBalanced (Fin 1000) (Fin 900)]"
proof -
  have run: "createJournalEntry example_platform example_config no_faults 1 example_db
     (JObject [(''description'', JString []),
               (''lines'', JArray [example_line 1 0 900, example_line 2 1000 0])])
   = (Inl (InvalidJournalEntry
            [EntryDateRequired, DescriptionRequired, NotBalanced (Fin 1000) (Fin 900)]),
      example_db)"
    by (simp add: run_defs example_defs)
  from createJournalEntry_reports_all_violations[OF run] run show ?thesis by simp
qed

text \<open>
  Claim C9 says that every line persisted by createJournalEntry has a debit and a credit of at
  least 0. Neither the validation nor the table checks a sign: the entry below, a credit of -5
  against a debit of -5, is balanced, and both lines are stored as submitted.
\<close>

theorem createJournalEntry_negative_amounts_counterexample:
  "createJournalEntry example_platform example_config no_faults 1 example_db
     (example_payload [example_line 1 0 (- 5), example_line 2 (- 5) 0])
   = (Inr \<lparr>entry = Some example_entry,
           created_lines =
             [\<lparr>lwa_line = example_row 1 1 0 (- 5), lwa_accountNumber = ''1010'',
               lwa_accountName = ''Cash - Checking''\<rparr>,
              \<lparr>lwa_line = example_row 2 2 (- 5) 0, lwa_accountNumber = ''6100'',
               lwa_accountName = ''Rent Expense''\<rparr>]\<rparr>,
      example_db\<lparr>journal_entries := [example_entry],
                 journal_entry_lines := [example_row 1 1 0 (- 5), example_row 2 2 (- 5) 0],
                 je_id_seq := 1, jel_id_seq := 2\<rparr>)
   \<and> jel_credit (example_row 1 1 0 (- 5)) < 0 \<and> jel_debit (example_row 2 2 (- 5) 0) < 0"
  by (simp add: run_defs example_defs)

text \<open>
  Claim C9, as amended. The rows that a call of createJournalEntry adds to the table of lines
  are one for each submitted line, in order; a row holds the submitted debit and credit
  (\<^verbatim>\<open>Number(x) || 0\<close>, in the decimal form that JavaScript writes for the number) rounded to
  two decimals. So the stored debit is at least 0 whenever the submitted debit is at least 0,
  and likewise the credit.
\<close>

theorem createJournalEntry_persists_submitted_amounts:
  assumes "createJournalEntry pf cfg f now d p = (res, d')"
  shows "\<exists>rows. journal_entry_lines d' = journal_entry_lines d @ rows \<and>
           (rows = [] \<or>
            (\<exists>ls. js_get p ''lines'' = JArray ls \<and>
               list_all2 (\<lambda>line row. \<exists>dq cq.
                   amount pf ''debit'' line = Inr (Fin dq) \<and>
                   amount pf ''credit'' line = Inr (Fin cq) \<and>
                   jel_debit row = round2 (to_decimal dq) \<and>
                   jel_credit row = round2 (to_decimal cq) \<and>
                   (0 \<le> dq \<longrightarrow> 0 \<le> jel_debit row) \<and> (0 \<le> cq \<longrightarrow> 0 \<le> jel_credit row))
                 ls rows))"
proof (cases "same_rows d d'")
  case True
  then have "journal_entry_lines d' = journal_entry_lines d @ []"
    by (simp add: same_rows_def)
  then show ?thesis by blast
next
  case False
  with createJournalEntry_cases[OF assms]
  have "entry_added pf now (js_get p ''description'') (js_get p ''lines'') d d'"
    by (auto simp: written_def)
  then obtain header rows ls where all:
    "js_get p ''lines'' = JArray ls \<and>
     chart_of_accounts d' = chart_of_accounts d \<and>
     journal_entries d' = journal_entries d @ [header] \<and>
     journal_entry_lines d' = journal_entry_lines d @ rows \<and>
     list_all2 (stored_as pf (je_id header) now) ls rows \<and>
     Some (je_description header) = text_param pf (js_get p ''description'') \<and>
     je_createdAt header = now \<and> je_updatedAt header = now"
    unfolding entry_added_def by blast
  then have ls: "js_get p ''lines'' = JArray ls"
    and rows: "journal_entry_lines d' = journal_entry_lines d @ rows"
    and st: "list_all2 (stored_as pf (je_id header) now) ls rows"
    by blast+
  have "\<exists>dq cq. amount pf ''debit'' line = Inr (Fin dq) \<and>
          amount pf ''credit'' line = Inr (Fin cq) \<and>
          jel_debit row = round2 (to_decimal dq) \<and> jel_credit row = round2 (to_decimal cq) \<and>
          (0 \<le> dq \<longrightarrow> 0 \<le> jel_debit row) \<and> (0 \<le> cq \<longrightarrow> 0 \<le> jel_credit row)"
    if "stored_as pf (je_id header) now line row" for line row
    using stored_as_amounts[OF that] by (auto simp: round2_nonneg to_decimal_nonneg)
  with st have "list_all2 (\<lambda>line row. \<exists>dq cq.
               amount pf ''debit'' line = Inr (Fin dq) \<and>
               amount pf ''credit'' line = Inr (Fin cq) \<and>
               jel_debit row = round2 (to_decimal dq) \<and>
               jel_credit row = round2 (to_decimal cq) \<and>
               (0 \<le> dq \<longrightarrow> 0 \<le> jel_debit row) \<and> (0 \<le> cq \<longrightarrow> 0 \<le> jel_credit row)) ls rows"
    by (rule list_all2_mono)
  with ls rows show ?thesis by blast
qed

text \<open>An eighth credited to cash and debited to rent is stored as 0.13 on both lines.\<close>

theorem createJournalEntry_persists_submitted_amounts_witness:
  "createJournalEntry example_platform example_config no_faults 1 example_db
     (example_payload [example_line 1 0 (1 / 8), example_line 2 (1 / 8) 0])
   = (Inr \<lparr>entry = Some example_entry,
           created_lines =
             [\<lparr>lwa_line = example_row 1 1 0 (13 / 100), lwa_accountNumber = ''1010'',
               lwa_accountName = ''Cash - Checking''\<rparr>,
              \<lparr>lwa_line = example_row 2 2 (13 / 100) 0, lwa_accountNumber = ''6100'',
               lwa_accountName = ''Rent Expense''\<rparr>]\<rparr>,
      example_db\<lparr>journal_entries := [example_entry],
                 journal_entry_lines :=
                   [example_row 1 1 0 (13 / 100), example_row 2 2 (13 / 100) 0],
                 je_id_seq := 1, jel_id_seq := 2\<rparr>)
   \<and> (\<exists>rows. [example_row 1 1 0 (13 / 100), example_row 2 2 (13 / 100) 0]
              = journal_entry_lines example_db @ rows)"
proof -
  have run: "createJournalEntry example_platform example_config no_faults 1 example_db
     (example_payload [example_line 1 0 (1 / 8), example_line 2 (1 / 8) 0])
   = (Inr \<lparr>entry = Some example_entry,
           created_lines =
             [\<lparr>lwa_line = example_row 1 1 0 (13 / 100), lwa_accountNumber = ''1010'',
               lwa_accountName = ''Cash - Checking''\<rparr>,
              \<lparr>lwa_line = example_row 2 2 (13 / 100) 0, lwa_accountNumber = ''6100'',
               lwa_accountName = ''Rent Expense''\<rparr>]\<rparr>,
      example_db\<lparr>journal_entries := [example_entry],
                 journal_entry_lines :=
                   [example_row 1 1 0 (13 / 100), example_row 2 2 (13 / 100) 0],
                 je_id_seq := 1, jel_id_seq := 2\<rparr>)"
    by (simp add: run_defs example_defs)
  from createJournalEntry_persists_submitted_amounts[OF run]
  have "\<exists>rows. [example_row 1 1 0 (13 / 100), example_row 2 2 (13 / 100) 0]
              = journal_entry_lines example_db @ rows"
    by auto
  with run show ?thesis by simp
qed

text \<open>
  Claim C10. The two reads after \<^verbatim>\<open>COMMIT\<close> are inside the \<^verbatim>\<open>try\<close> block. Take a run that
  returns a result and let the first or the second read fail instead: the call now returns
  an error, and the database it leaves is the one the successful run leaves, with the entry
  and all its lines. An error from createJournalEntry does not mean that nothing was stored.
\<close>

theorem createJournalEntry_error_after_commit:
  assumes "createJournalEntry pf cfg f now d p = (Inr r, d')"
    and "g = f(SelectEntry := True) \<or> g = f(SelectLines := True)"
  shows "createJournalEntry pf cfg g now d p = (Inl (StorageError ConnectionFailure), d')
         \<and> entry_added pf now (js_get p ''description'') (js_get p ''lines'') d d'
         \<and> \<not> same_rows d d'"
proof -
  from createJournalEntry_cases[OF assms(1)]
  have c: "config_valid cfg" "payload_valid pf p"
    and ea: "entry_added pf now (js_get p ''description'') (js_get p ''lines'') d d'"
    by (auto simp: written_def)
  from assms(1) have "operation pf f now (js_get p ''entryDate'') (js_get p ''description'')
          (js_get p ''referenceNumber'') (js_get p ''createdBy'') (js_get p ''lines'') d
        = (Inr r, d')"
    unfolding createJournalEntry_valid[OF c] .
  from operation_readback_fault[OF this assms(2)]
  have "createJournalEntry pf cfg g now d p = (Inl (StorageError ConnectionFailure), d')"
    unfolding createJournalEntry_valid[OF c] .
  moreover from ea have "\<not> same_rows d d'"
    by (auto simp: entry_added_def same_rows_def)
  ultimately show ?thesis using ea by simp
qed

text \<open>The rent entry again, with the read of the header failing: an error, and the ledger
  holds the entry and both lines.\<close>

theorem createJournalEntry_error_after_commit_witness:
  "createJournalEntry example_platform example_config (no_faults(SelectEntry := True)) 1
     example_db (example_payload [example_line 1 0 1500, example_line 2 1500 0])
   = (Inl (StorageError ConnectionFailure),
      example_db\<lparr>journal_entries := [example_entry],
                 journal_entry_lines := [example_row 1 1 0 1500, example_row 2 2 1500 0],
                 je_id_seq := 1, jel_id_seq := 2\<rparr>)"
proof -
  have run: "createJournalEntry example_platform example_config no_faults 1 example_db
     (example_payload [example_line 1 0 1500, example_line 2 1500 0])
   = (Inr \<lparr>entry = Some example_entry,
           created_lines =
             [\<lparr>lwa_line = example_row 1 1 0 1500, lwa_accountNumber = ''1010'',
               lwa_accountName = ''Cash - Checking''\<rparr>,
              \<lparr>lwa_line = example_row 2 2 1500 0, lwa_accountNumber = ''6100'',
               lwa_accountName = ''Rent Expense''\<rparr>]\<rparr>,
      example_db\<lparr>journal_entries := [example_entry],
                 journal_entry_lines := [example_row 1 1 0 1500, example_row 2 2 1500 0],
                 je_id_seq := 1, jel_id_seq := 2\<rparr>)"
    by (simp add: run_defs example_defs)
  from createJournalEntry_error_after_commit[OF run, of "no_faults(SelectEntry := True)"]
  show ?thesis by simp
qed

section \<open>Seeding the chart of accounts\<close>

text \<open>
  Claim C4. Seeding is idempotent. When the chart of accounts holds at least one account,
  seedChartOfAccounts leaves the database as it is, whichever calls fail. So after a seeding
  that succeeded, a second seeding changes nothing, and the number of accounts after two
  seedings is the number after one.
\<close>

theorem seedChartOfAccounts_idempotent:
  "(chart_of_accounts (store cl) \<noteq> [] \<longrightarrow> snd (seedChartOfAccounts f now cl) = cl)
   \<and> (fst (seedChartOfAccounts f now cl) = Inr () \<longrightarrow>
        snd (seedChartOfAccounts g now2 (snd (seedChartOfAccounts f now cl)))
          = snd (seedChartOfAccounts f now cl)
        \<and> length (chart_of_accounts (store
             (snd (seedChartOfAccounts g now2 (snd (seedChartOfAccounts f now cl))))))
          = length (chart_of_accounts (store (snd (seedChartOfAccounts f now cl)))))"
proof -
  have noop: "snd (seedChartOfAccounts h t c) = c" if "chart_of_accounts (store c) \<noteq> []"
    for h t c
    using seed_nonempty[OF that, of h t] by simp
  have "snd (seedChartOfAccounts g now2 (snd (seedChartOfAccounts f now cl)))
          = snd (seedChartOfAccounts f now cl)"
    if "fst (seedChartOfAccounts f now cl) = Inr ()"
  proof -
    from that have "seedChartOfAccounts f now cl = (Inr (), snd (seedChartOfAccounts f now cl))"
      by (metis prod.collapse)
    from seed_Inr_nonempty[OF this] show ?thesis by (rule noop)
  qed
  with noop show ?thesis by simp
qed

text \<open>Seeding the empty database, then seeding again: the second run changes nothing.\<close>

theorem seedChartOfAccounts_idempotent_witness:
  "fst (seedChartOfAccounts no_faults 1 \<lparr>store = empty_db, tx = None\<rparr>) = Inr ()
   \<and> snd (seedChartOfAccounts no_faults 2
            (snd (seedChartOfAccounts no_faults 1 \<lparr>store = empty_db, tx = None\<rparr>)))
     = snd (seedChartOfAccounts no_faults 1 \<lparr>store = empty_db, tx = None\<rparr>)"
proof -
  have "chart_of_accounts (store \<lparr>store = empty_db, tx = None\<rparr>) = []"
    by (simp add: empty_db_def)
  from seed_empty[OF this, of no_faults 1]
  have ok: "fst (seedChartOfAccounts no_faults 1 \<lparr>store = empty_db, tx = None\<rparr>) = Inr ()"
    by (auto simp: no_faults_def)
  with seedChartOfAccounts_idempotent[of "\<lparr>store = empty_db, tx = None\<rparr>" no_faults 1 no_faults 2]
  show ?thesis by blast
qed

text \<open>
  Claim C5 says that seeding an empty registry creates exactly 55 accounts. The array
  \<^verbatim>\<open>accounts\<close> has 59 elements (12 assets, 11 liabilities, 6 equity, 5 revenue, 25
  expenses), and seeding the empty database creates 59 accounts.
\<close>

theorem seedChartOfAccounts_count_counterexample:
  "length (chart_of_accounts (store
     (snd (seedChartOfAccounts no_faults 1 \<lparr>store = empty_db, tx = None\<rparr>)))) = 59
   \<and> length (chart_of_accounts (store
     (snd (seedChartOfAccounts no_faults 1 \<lparr>store = empty_db, tx = None\<rparr>)))) \<noteq> 55"
proof -
  have "chart_of_accounts (store \<lparr>store = empty_db, tx = None\<rparr>) = []"
    by (simp add: empty_db_def)
  from seed_empty[OF this, of no_faults 1] obtain cl' where
    "seedChartOfAccounts no_faults 1 \<lparr>store = empty_db, tx = None\<rparr> = (Inr (), cl')"
    "length (chart_of_accounts (store cl')) = 59"
    by (auto simp: no_faults_def seeded_rows_length accounts_facts(1))
  then show ?thesis by simp
qed

text \<open>
  Claim C5, as amended. Seeding an empty chart of accounts, when no call fails, succeeds and
  creates exactly 59 accounts. Each is active and has the time of the seeding as its creation
  time and as its update time, and the accounts span the five categories.
\<close>

theorem seedChartOfAccounts_empty_registry:
  assumes "chart_of_accounts (store cl) = []" and "\<forall>c. \<not> f c"
  shows "\<exists>cl'. seedChartOfAccounts f now cl = (Inr (), cl') \<and>
           length (chart_of_accounts (store cl')) = 59 \<and>
           (\<forall>a\<in>set (chart_of_accounts (store cl')).
              coa_isActive a \<and> coa_createdAt a = now \<and> coa_updatedAt a = coa_createdAt a) \<and>
           coa_category ` set (chart_of_accounts (store cl'))
             = {Assets, Liabilities, Equity, Revenue, Expenses}"
proof -
  from seed_empty[OF assms, of now] obtain cl' where
    run: "seedChartOfAccounts f now cl = (Inr (), cl')"
    and rows: "chart_of_accounts (store cl') = seeded_rows (coa_id_seq (store cl)) now accounts"
    by blast
  have "length (chart_of_accounts (store cl')) = 59"
    unfolding rows by (simp add: seeded_rows_length accounts_facts(1))
  moreover have "\<forall>a\<in>set (chart_of_accounts (store cl')).
      coa_isActive a \<and> coa_createdAt a = now \<and> coa_updatedAt a = coa_createdAt a"
    unfolding rows using seeded_rows_props by fastforce
  moreover have "coa_category ` set (chart_of_accounts (store cl'))
      = {Assets, Liabilities, Equity, Revenue, Expenses}"
    unfolding rows by (simp only: seeded_rows_category accounts_facts(4))
  ultimately show ?thesis using run by blast
qed

theorem seedChartOfAccounts_empty_registry_witness:
  "\<exists>cl'. seedChartOfAccounts no_faults 1 \<lparr>store = empty_db, tx = None\<rparr> = (Inr (), cl') \<and>
         length (chart_of_accounts (store cl')) = 59 \<and>
         (\<forall>a\<in>set (chart_of_accounts (store cl')).
            coa_isActive a \<and> coa_createdAt a = 1 \<and> coa_updatedAt a = coa_createdAt a) \<and>
         coa_category ` set (chart_of_accounts (store cl'))
           = {Assets, Liabilities, Equity, Revenue, Expenses}"
proof -
  have e: "chart_of_accounts (store \<lparr>store = empty_db, tx = None\<rparr>) = []"
    by (simp add: empty_db_def)
  have n: "\<forall>c. \<not> no_faults c" by (simp add: no_faults_def)
  from seedChartOfAccounts_empty_registry[OF e n, of 1] show ?thesis .
qed

section \<open>Balances, overview and the list of entries\<close>

text \<open>
  Claim C6. With a valid configuration, no failing call and a chart of accounts whose ids are
  distinct (\<open>id\<close> is the primary key), getAccountBalances returns five buckets. The bucket
  of a category holds, in ascending order of the account number, one item for each active
  account of the category and nothing else; the item of an account has the sum of the debits
  of the lines of the account, the sum of their credits and, as its balance, the first minus
  the second (this is \<open>balance_of\<close>). An active account without lines is there with three
  zeros.
\<close>

theorem getAccountBalances_correct:
  assumes "config_valid cfg" and "\<not> f Connect" and "\<not> f Query"
    and "distinct (map coa_id (chart_of_accounts d))"
  shows "\<exists>g. getAccountBalances cfg f d = Inr g \<and>
     (\<forall>c. bucket_of g c =
        map (balance_of (journal_entry_lines d))
          (filter (\<lambda>a. coa_category a = c)
             (sort_key coa_accountNumber (filter coa_isActive (chart_of_accounts d))))) \<and>
     (\<forall>c. sorted (map accountNumber (bucket_of g c))) \<and>
     (\<forall>a\<in>set (chart_of_accounts d). coa_isActive a \<longrightarrow>
        balance_of (journal_entry_lines d) a \<in> set (bucket_of g (coa_category a))) \<and>
     (\<forall>c. \<forall>r\<in>set (bucket_of g c). \<exists>a\<in>set (chart_of_accounts d).
        coa_isActive a \<and> coa_category a = c \<and> r = balance_of (journal_entry_lines d) a) \<and>
     (\<forall>c. \<forall>r\<in>set (bucket_of g c). balance r = totalDebit r - totalCredit r) \<and>
     (\<forall>a\<in>set (chart_of_accounts d).
        coa_isActive a \<and> (\<forall>l\<in>set (journal_entry_lines d). jel_accountId l \<noteq> coa_id a) \<longrightarrow>
        \<lparr>accountNumber = coa_accountNumber a, accountName = coa_accountName a, balance = 0,
         totalDebit = 0, totalCredit = 0\<rparr> \<in> set (bucket_of g (coa_category a)))"
proof -
  let ?jel = "journal_entry_lines d"
  let ?sorted = "sort_key coa_accountNumber (filter coa_isActive (chart_of_accounts d))"
  let ?g = "accountBalances_spec d"
  have run: "getAccountBalances cfg f d = Inr ?g"
    using assms by (rule getAccountBalances_eq)
  have b: "bucket_of ?g c = map (balance_of ?jel) (filter (\<lambda>a. coa_category a = c) ?sorted)" for c
    by (simp add: bucket_of_spec bucket_def)
  have srt: "sorted (map accountNumber (bucket_of ?g c))" for c
  proof -
    have "map accountNumber (bucket_of ?g c)
            = map coa_accountNumber (filter (\<lambda>a. coa_category a = c) ?sorted)"
      by (simp add: b balance_of_def comp_def)
    moreover have "sorted (map coa_accountNumber (filter (\<lambda>a. coa_category a = c) ?sorted))"
      by (rule sorted_filter) (rule sorted_sort_key)
    ultimately show ?thesis by simp
  qed
  have mem: "balance_of ?jel a \<in> set (bucket_of ?g (coa_category a))"
    if "a \<in> set (chart_of_accounts d)" "coa_isActive a" for a
    using that by (simp add: b)
  have only: "\<exists>a\<in>set (chart_of_accounts d).
        coa_isActive a \<and> coa_category a = c \<and> r = balance_of ?jel a"
    if "r \<in> set (bucket_of ?g c)" for c r
    using that by (auto simp: b)
  have diff: "balance r = totalDebit r - totalCredit r" if "r \<in> set (bucket_of ?g c)" for c r
    using that by (auto simp: b balance_of_def)
  have zero: "\<lparr>accountNumber = coa_accountNumber a, accountName = coa_accountName a, balance = 0,
         totalDebit = 0, totalCredit = 0\<rparr> \<in> set (bucket_of ?g (coa_category a))"
    if "a \<in> set (chart_of_accounts d)" "coa_isActive a"
      "\<forall>l\<in>set ?jel. jel_accountId l \<noteq> coa_id a" for a
  proof -
    from that(3) have "filter (\<lambda>l. jel_accountId l = coa_id a) ?jel = []"
      by (simp add: filter_empty_conv)
    then have "balance_of ?jel a = \<lparr>accountNumber = coa_accountNumber a,
        accountName = coa_accountName a, balance = 0, totalDebit = 0, totalCredit = 0\<rparr>"
      by (simp add: balance_of_def)
    with mem[OF that(1,2)] show ?thesis by simp
  qed
  from run b srt mem only diff zero show ?thesis by blast
qed

text \<open>The example ledger after the rent entry: cash is at -1500 and rent at 1500.\<close>

theorem getAccountBalances_correct_witness:
  "config_valid example_config \<and> \<not> no_faults Connect \<and> \<not> no_faults Query
   \<and> distinct (map coa_id (chart_of_accounts example_ledger))
   \<and> getAccountBalances example_config no_faults example_ledger
     = Inr \<lparr>assets = [\<lparr>accountNumber = ''1010'', accountName = ''Cash - Checking'',
                       balance = - 1500, totalDebit = 0, totalCredit = 1500\<rparr>],
            liabilities = [], equity = [], revenue = [],
            expenses = [\<lparr>accountNumber = ''6100'', accountName = ''Rent Expense'',
                         balance = 1500, totalDebit = 1500, totalCredit = 0\<rparr>]\<rparr>"
proof -
  have c: "config_valid example_config"
    by (simp add: config_valid_def validateAccountingDatabaseConfig_def
          validateAccountingQueryConfig_def example_config_def)
  have n: "\<not> no_faults Connect" "\<not> no_faults Query" by (simp_all add: no_faults_def)
  have d: "distinct (map coa_id (chart_of_accounts example_ledger))"
    by (simp add: example_ledger_def example_db_def example_account_def)
  from getAccountBalances_correct[OF c n d] obtain g where
    run: "getAccountBalances example_config no_faults example_ledger = Inr g"
    and b: "\<forall>c. bucket_of g c =
        map (balance_of (journal_entry_lines example_ledger))
          (filter (\<lambda>a. coa_category a = c)
             (sort_key coa_accountNumber (filter coa_isActive (chart_of_accounts example_ledger))))"
    by blast
  have "bucket_of g c = bucket_of \<lparr>assets = [\<lparr>accountNumber = ''1010'', accountName = ''Cash - Checking'',
                       balance = - 1500, totalDebit = 0, totalCredit = 1500\<rparr>],
            liabilities = [], equity = [], revenue = [],
            expenses = [\<lparr>accountNumber = ''6100'', accountName = ''Rent Expense'',
                         balance = 1500, totalDebit = 1500, totalCredit = 0\<rparr>]\<rparr> c" for c
    using b[rule_format, of c]
    by (cases c)
       (simp_all add: balance_of_def example_ledger_def example_db_def example_account_def
          example_row_def less_eq_char_def)
  then have "g = \<lparr>assets = [\<lparr>accountNumber = ''1010'', accountName = ''Cash - Checking'',
                       balance = - 1500, totalDebit = 0, totalCredit = 1500\<rparr>],
            liabilities = [], equity = [], revenue = [],
            expenses = [\<lparr>accountNumber = ''6100'', accountName = ''Rent Expense'',
                         balance = 1500, totalDebit = 1500, totalCredit = 0\<rparr>]\<rparr>"
    by (rule grouped_eqI)
  with run c n d show ?thesis by simp
qed



text \<open>
  Claim C8. With a valid configuration, no failing call and a limit \<open>n\<close> (50 when none is
  given), getJournalEntries returns the first \<open>n\<close> entries, or all of them if there are
  fewer, of the journal entries put in the order of descending entry date and, for equal
  dates, descending id: what it returns, followed by what it leaves out, is a rearrangement of
  the table in that order.
\<close>

theorem getJournalEntries_most_recent_first:
  assumes "config_valid cfg" and "\<not> f Connect" and "\<not> f Query"
    and "(case limit of None \<Rightarrow> Fin 50 | Some l \<Rightarrow> l) = Fin (of_nat n)"
    and "n < 2 ^ 63"
  shows "\<exists>rows rest. getJournalEntries cfg f limit d = Inr rows \<and>
           length rows \<le> n \<and>
           length rows = min n (length (journal_entries d)) \<and>
           mset (rows @ rest) = mset (journal_entries d) \<and>
           sorted_wrt (\<lambda>a b. je_entryDate b < je_entryDate a \<or>
                              (je_entryDate b = je_entryDate a \<and> je_id b \<le> je_id a))
             (rows @ rest)"
proof -
  let ?key = "\<lambda>e. (- je_entryDate e, - je_id e)"
  let ?S = "sort_key ?key (journal_entries d)"
  have fl: "\<lfloor>(of_nat n :: rat)\<rfloor> = int n" by simp
  have "int n < 2 ^ 63" using assms(5) by (metis of_nat_less_iff of_nat_numeral of_nat_power)
  then have lim: "limit_in (Fin (of_nat n)) = Inr n"
    unfolding limit_in_def jsnum.case fl by simp
  have run: "getJournalEntries cfg f limit d = Inr (take n ?S)"
    using assms(1-4) lim
    by (simp add: getJournalEntries_def executeQuery_ok select_journal_entries_def)
  have "sorted (map ?key ?S)" by (rule sorted_sort_key)
  then have "sorted_wrt (\<lambda>a b. ?key a \<le> ?key b) ?S" by (simp add: sorted_map)
  then have srt: "sorted_wrt (\<lambda>a b. je_entryDate b < je_entryDate a \<or>
                              (je_entryDate b = je_entryDate a \<and> je_id b \<le> je_id a)) ?S"
    by (rule sorted_wrt_mono_rel[rotated]) (auto simp: less_eq_prod_def)
  have "take n ?S @ drop n ?S = ?S" by simp
  moreover have "mset ?S = mset (journal_entries d)" by simp
  moreover have "length (take n ?S) = min n (length (journal_entries d))" by simp
  ultimately show ?thesis using run srt
    by (intro exI[of _ "take n ?S"] exI[of _ "drop n ?S"]) simp
qed

text \<open>Two entries of the same day and an older one, with limit 2: the entry with the higher
  id comes first and the older one is left out.\<close>

theorem getJournalEntries_most_recent_first_witness:
  "getJournalEntries example_config no_faults (Some (Fin 2))
     (example_db\<lparr>journal_entries :=
        [example_entry\<lparr>je_id := 1, je_entryDate := 8700\<rparr>, example_entry\<lparr>je_id := 2\<rparr>,
         example_entry\<lparr>je_id := 3\<rparr>]\<rparr>)
   = Inr [example_entry\<lparr>je_id := 3\<rparr>, example_entry\<lparr>je_id := 2\<rparr>]"
proof -
  have c: "config_valid example_config"
    by (simp add: config_valid_def validateAccountingDatabaseConfig_def
          validateAccountingQueryConfig_def example_config_def)
  have n: "\<not> no_faults Connect" "\<not> no_faults Query" by (simp_all add: no_faults_def)
  have l: "(case Some (Fin 2) of None \<Rightarrow> Fin 50 | Some l \<Rightarrow> l) = Fin (of_nat 2)" by simp
  have b: "(2::nat) < 2 ^ 63" by simp
  from getJournalEntries_most_recent_first[OF c n l b,
      of "example_db\<lparr>journal_entries :=
        [example_entry\<lparr>je_id := 1, je_entryDate := 8700\<rparr>, example_entry\<lparr>je_id := 2\<rparr>,
         example_entry\<lparr>je_id := 3\<rparr>]\<rparr>"]
  obtain rows rest where
    run: "getJournalEntries example_config no_faults (Some (Fin 2))
     (example_db\<lparr>journal_entries :=
        [example_entry\<lparr>je_id := 1, je_entryDate := 8700\<rparr>, example_entry\<lparr>je_id := 2\<rparr>,
         example_entry\<lparr>je_id := 3\<rparr>]\<rparr>) = Inr rows"
    by blast
  moreover have "getJournalEntries example_config no_faults (Some (Fin 2))
     (example_db\<lparr>journal_entries :=
        [example_entry\<lparr>je_id := 1, je_entryDate := 8700\<rparr>, example_entry\<lparr>je_id := 2\<rparr>,
         example_entry\<lparr>je_id := 3\<rparr>]\<rparr>)
   = Inr [example_entry\<lparr>je_id := 3\<rparr>, example_entry\<lparr>je_id := 2\<rparr>]"
    using c n
    by (simp add: getJournalEntries_def executeQuery_ok select_journal_entries_def limit_in_def
          example_db_def example_entry_def less_eq_prod_def)
  ultimately show ?thesis by simp
qed

end
